theory Spec2Isabelle
  imports
    Main
    "HOL-Library.AList"
    "HOL-Library.Multiset"
    "HOL-Library.Product_Lexorder"
    "HOL-Library.List_Lexorder"
begin

section \<open>The host editor, as far as \<^verbatim>\<open>extension.ts\<close> reads and drives it\<close>

text \<open>
  The extension is an orchestration layer over the editor's window, document, prompt and
  file-system interfaces. The model keeps, in one record, what the code reads from the host
  (tab groups, documents, configuration, the file system, the clock), the module-level
  cursor map, the answers the user will give to the prompts still to come, and a trace of
  every call the code makes that the user or the host can observe.

  JavaScript numbers that occur here (indices, view columns, cursor coordinates, the schema
  version) are modelled as \<^typ>\<open>int\<close>.
\<close>

record Uri =
  scheme :: string
  toString :: string

datatype TabInput =
    NoInput
  | TabInputText Uri
  | TabInputTextDiff Uri Uri
  | TabInputTextMerge "Uri option"
  | TabInputOther

record Tab =
  label :: string
  input :: TabInput
  isActive :: bool

text \<open>
  A tab group's \<^verbatim>\<open>activeTab\<close> is a reference to one of the objects of its own \<^verbatim>\<open>tabs\<close> array,
  and the window's \<^verbatim>\<open>activeTabGroup\<close> a reference to one of the groups of \<^verbatim>\<open>tabGroups.all\<close>.
  A reference into an array is modelled by the position it points at, so that the identity
  test \<^verbatim>\<open>===\<close> on tab objects is equality of positions.
\<close>

record TabGroup =
  tabs :: "Tab list"
  viewColumn :: int
  activeTab :: "nat option"


record SavedCursorPosition =
  line :: int
  character :: int

record SavedTabState =
  uri :: string
  groupIndex :: int
  tabIndex :: int
  viewColumn :: "int option"
  isGroupActive :: bool
  isGlobalActive :: bool
  cursor :: "SavedCursorPosition option"

record SessionFileContent =
  version :: int
  tabs :: "SavedTabState list"

record SessionFileRecord =
  name :: string
  fullPath :: string

text \<open>
  What \<^verbatim>\<open>JSON.parse\<close> returns. \<^verbatim>\<open>readSessionFile\<close> never looks inside the elements of an
  array and hands them on under the type assertion \<^verbatim>\<open>as SavedTabState[]\<close>; the elements are
  therefore kept at a type parameter, which that assertion fixes. An object is the list of
  its own properties.
\<close>

datatype 't json =
    JNull
  | JBool bool
  | JNum int
  | JStr string
  | JArr "'t list"
  | JObj "(string \<times> 't json) list"

text \<open>
  A file holds text; the text matters to the code only through \<^verbatim>\<open>JSON.parse\<close>, so a file's
  content is the value its text parses to, or \<open>NotJson\<close> when the parser throws.
\<close>

datatype content = NotJson | Json "SavedTabState json"

datatype node = File content | Dir

text \<open>
  An open document: the file that backs it, the text of its buffer, and the flags the code
  tests.
\<close>

record TextDocument =
  fileName :: string
  getText :: content
  isUntitled :: bool
  isClosed :: bool
  isDirty :: bool

record ResolveOptions =
  promptUser :: "bool option"
  showWarning :: "bool option"
  ensureExists :: "bool option"

text \<open>The argument of a command: absent, a session record (from the sidebar), or a string.\<close>

datatype arg = NoArg | ArgRecord SessionFileRecord | ArgString string

datatype event =
    ShowWarningMessage string
  | ShowInformationMessage string
  | Asked string "string list" "string option"
  | CloseTab nat nat
  | CloseAllEditors
  | OpenTextDocument string
  | ShowTextDocument string "int option" bool
  | SetSelection string int int
  | SaveAll
  | ConfigUpdate string string
  | RefreshTree
  | ConsoleError

record host =
  files :: "(string \<times> node) list"
  tabGroups :: "TabGroup list"
  activeTabGroup :: "nat option"
  textDocuments :: "TextDocument list"
  canOpen :: "string \<Rightarrow> bool"
  workspaceFolders :: "string list"
  globalStoragePath :: string
  fileLocation :: string
  workspaceFolder :: "string option"
  customFolder :: "string option"
  saveBehaviorOnRestore :: string
  lastKnownCursorPositions :: "string \<rightharpoonup> SavedCursorPosition"
  now :: string
  answers :: "string option list"
  trace :: "event list"

definition emit :: "event \<Rightarrow> host \<Rightarrow> host" where
  "emit e h = h\<lparr>trace := trace h @ [e]\<rparr>"

definition showWarningMessage :: "string \<Rightarrow> host \<Rightarrow> host" where
  "showWarningMessage msg h = emit (ShowWarningMessage msg) h"

definition showInformationMessage :: "string \<Rightarrow> host \<Rightarrow> host" where
  "showInformationMessage msg h = emit (ShowInformationMessage msg) h"

text \<open>
  A prompt (modal message with buttons, quick pick, input box, folder dialog) suspends the
  command until the user answers or dismisses it; the answer is the next one of the user's
  script, \<open>None\<close> standing for \<^verbatim>\<open>undefined\<close>. A user whose script has run out dismisses.
\<close>

definition ask :: "string \<Rightarrow> string list \<Rightarrow> host \<Rightarrow> string option \<times> host" where
  "ask msg items h =
     (case answers h of
        [] \<Rightarrow> (None, emit (Asked msg items None) h)
      | a # rest \<Rightarrow> (a, emit (Asked msg items a) (h\<lparr>answers := rest\<rparr>)))"

section \<open>File system\<close>

text \<open>
  Paths are keys of an association list; a directory's entries are the keys one component
  below it, in the order the list holds them. \<^verbatim>\<open>path.join\<close> is applied by the code to a
  directory path and a single file name, where it amounts to concatenation with a separator.
\<close>

definition pathJoin :: "string \<Rightarrow> string \<Rightarrow> string" where
  "pathJoin dir file = dir @ ''/'' @ file"

definition existsSync :: "host \<Rightarrow> string \<Rightarrow> bool" where
  "existsSync h p = (map_of (files h) p \<noteq> None)"

definition childName :: "string \<Rightarrow> string \<Rightarrow> string option" where
  "childName dir p =
     (let n = length dir + 1; rest = drop n p
      in if take n p = dir @ ''/'' \<and> rest \<noteq> [] \<and> CHR ''/'' \<notin> set rest
         then Some rest else None)"

definition readdir :: "host \<Rightarrow> string \<Rightarrow> string + string list" where
  "readdir h dir =
     (case map_of (files h) dir of
        None \<Rightarrow> Inl ''ENOENT''
      | Some (File c) \<Rightarrow> Inl ''ENOTDIR''
      | Some Dir \<Rightarrow> Inr (List.map_filter (\<lambda>(p, n). childName dir p) (files h)))"

definition readFile :: "host \<Rightarrow> string \<Rightarrow> string + content" where
  "readFile h p =
     (case map_of (files h) p of
        None \<Rightarrow> Inl ''ENOENT''
      | Some Dir \<Rightarrow> Inl ''EISDIR''
      | Some (File c) \<Rightarrow> Inr c)"

section \<open>Session serializer: load path\<close>

definition lookupProperty :: "(string \<times> 't json) list \<Rightarrow> string \<Rightarrow> 't json option" where
  "lookupProperty props k = map_of props k"

definition quoted :: "string \<Rightarrow> string" where
  "quoted s = [CHR 0x22] @ s @ [CHR 0x22]"

text \<open>
  \<^verbatim>\<open>readSessionFile\<close>: the \<^verbatim>\<open>try\<close> block reads and parses; a failure of either lands in the
  \<^verbatim>\<open>catch\<close>, which tells \<^verbatim>\<open>ENOENT\<close> from everything else (a \<^verbatim>\<open>SyntaxError\<close> carries no
  \<^verbatim>\<open>code\<close>). The test \<^verbatim>\<open>parsed && typeof parsed === 'object' && Array.isArray(parsed.tabs)\<close>
  holds of an object with a \<^verbatim>\<open>tabs\<close> property that is an array, and of nothing else: \<^verbatim>\<open>null\<close>,
  \<^verbatim>\<open>false\<close>, \<^verbatim>\<open>0\<close> and the empty string are falsy, other numbers, strings and \<^verbatim>\<open>true\<close> are
  not of type object, and an array has no \<^verbatim>\<open>tabs\<close> property.
\<close>

definition readSessionFile :: "string \<Rightarrow> host \<Rightarrow> SessionFileContent option \<times> host" where
  "readSessionFile filePath h =
     (case readFile h filePath of
        Inl code \<Rightarrow>
          (if code = ''ENOENT''
           then (None, showWarningMessage (''Session file not found: '' @ filePath) h)
           else (None, emit ConsoleError
                   (showWarningMessage (''Failed to read session file: '' @ filePath) h)))
      | Inr NotJson \<Rightarrow>
          (None, emit ConsoleError
             (showWarningMessage (''Failed to read session file: '' @ filePath) h))
      | Inr (Json parsed) \<Rightarrow>
          (case parsed of
             JObj props \<Rightarrow>
               (case lookupProperty props ''tabs'' of
                  Some (JArr ts) \<Rightarrow>
                    (Some \<lparr>version = (case lookupProperty props ''version'' of
                                        Some (JNum v) \<Rightarrow> v | _ \<Rightarrow> 1),
                           tabs = ts\<rparr>, h)
                | _ \<Rightarrow> (None, showWarningMessage (''Session file is invalid: '' @ filePath) h))
           | _ \<Rightarrow> (None, showWarningMessage (''Session file is invalid: '' @ filePath) h)))"

section \<open>Restore ordering\<close>

text \<open>
  \<^verbatim>\<open>Array.prototype.sort\<close> with a comparison function is a stable sort: an element moves in
  front of another only when the comparator puts it strictly before. It is modelled by
  insertion from the right, which keeps equal elements in their original order.
\<close>

fun insertBy :: "('a \<Rightarrow> 'a \<Rightarrow> int) \<Rightarrow> 'a \<Rightarrow> 'a list \<Rightarrow> 'a list" where
  "insertBy cmp x [] = [x]"
| "insertBy cmp x (y # ys) = (if cmp x y \<le> 0 then x # y # ys else y # insertBy cmp x ys)"

definition sortBy :: "('a \<Rightarrow> 'a \<Rightarrow> int) \<Rightarrow> 'a list \<Rightarrow> 'a list" where
  "sortBy cmp xs = foldr (insertBy cmp) xs []"

definition compareTabs :: "SavedTabState \<Rightarrow> SavedTabState \<Rightarrow> int" where
  "compareTabs a b =
     (if groupIndex a = groupIndex b then
        (if isGroupActive a = isGroupActive b then tabIndex a - tabIndex b
         else if isGroupActive a then 1 else -1)
      else groupIndex a - groupIndex b)"

definition sortedTabs :: "SavedTabState list \<Rightarrow> SavedTabState list" where
  "sortedTabs ts = sortBy compareTabs ts"

text \<open>The order the specification describes: group, then inactive before active, then tab.\<close>

definition replayKey :: "SavedTabState \<Rightarrow> int \<times> bool \<times> int" where
  "replayKey t = (groupIndex t, isGroupActive t, tabIndex t)"

section \<open>Session serializer: save path\<close>

definition SESSION_FILE_VERSION :: int where
  "SESSION_FILE_VERSION = 2"

definition getTabUri :: "Tab \<Rightarrow> Uri option" where
  "getTabUri tab =
     (case input tab of
        NoInput \<Rightarrow> None
      | TabInputText u \<Rightarrow> Some u
      | TabInputTextDiff original modified \<Rightarrow> Some modified
      | TabInputTextMerge destination \<Rightarrow> destination
      | TabInputOther \<Rightarrow> None)"

text \<open>
  \<^verbatim>\<open>collectTextTabs\<close> walks the groups and, inside each, the tabs, in array order, keeping
  the tabs that have a URI of scheme \<open>file\<close>. Each result is the source's object
  \<^verbatim>\<open>{ tab, uri, group, groupIndex, tabIndex }\<close>, as a tuple.
\<close>

definition collectGroup :: "nat \<Rightarrow> TabGroup \<Rightarrow> (Tab \<times> Uri \<times> TabGroup \<times> nat \<times> nat) list" where
  "collectGroup gi g =
     List.map_filter
       (\<lambda>(ti, tab).
          case getTabUri tab of
            None \<Rightarrow> None
          | Some u \<Rightarrow> if scheme u = ''file'' then Some (tab, u, g, gi, ti) else None)
       (enumerate 0 (TabGroup.tabs g))"

definition collectTextTabs :: "host \<Rightarrow> (Tab \<times> Uri \<times> TabGroup \<times> nat \<times> nat) list" where
  "collectTextTabs h = concat (map (\<lambda>(gi, g). collectGroup gi g) (enumerate 0 (tabGroups h)))"

text \<open>
  \<^verbatim>\<open>activeGroup?.activeTab === tab\<close>: the tab at position \<open>(gi, ti)\<close> is the active tab of the
  active group when the active group is group \<open>gi\<close> and that group's active tab is its tab
  \<open>ti\<close>.
\<close>

definition createSessionSnapshot :: "host \<Rightarrow> SessionFileContent" where
  "createSessionSnapshot h =
     \<lparr>version = SESSION_FILE_VERSION,
      tabs = map (\<lambda>(tab, u, g, gi, ti).
                \<lparr>uri = toString u,
                 groupIndex = int gi,
                 tabIndex = int ti,
                 viewColumn = Some (TabGroup.viewColumn g),
                 isGroupActive = isActive tab,
                 isGlobalActive = (activeTabGroup h = Some gi \<and> activeTab g = Some ti),
                 cursor = lastKnownCursorPositions h (toString u)\<rparr>)
              (collectTextTabs h)\<rparr>"

section \<open>Restore engine\<close>

text \<open>
  URIs stored in a session are strings that \<^verbatim>\<open>Uri.toString\<close> produced; \<^verbatim>\<open>Uri.parse\<close> is taken
  to give back the URI they came from, whose \<^verbatim>\<open>fsPath\<close> is the string without its
  \<^verbatim>\<open>file://\<close> prefix.
\<close>

definition fsPath :: "string \<Rightarrow> string" where
  "fsPath u = (if take 7 u = ''file://'' then drop 7 u else u)"

definition recordCursorPosition :: "string \<Rightarrow> SavedCursorPosition \<Rightarrow> host \<Rightarrow> host" where
  "recordCursorPosition u pos h =
     h\<lparr>lastKnownCursorPositions :=
         (lastKnownCursorPositions h)(u \<mapsto> \<lparr>line = line pos, character = character pos\<rparr>)\<rparr>"

text \<open>
  The body of the two \<^verbatim>\<open>try\<close> blocks of \<^verbatim>\<open>restoreSessionFromEntry\<close>: open the document, show
  it in the recorded column, and when a cursor was recorded put the caret there and record
  it. The result tells whether the block ran to its end. The host decides whether a
  document can be opened (\<open>canOpen\<close>), and its \<^verbatim>\<open>Position\<close> constructor rejects negative
  coordinates.
\<close>

definition openAndShow :: "SavedTabState \<Rightarrow> bool \<Rightarrow> host \<Rightarrow> bool \<times> host" where
  "openAndShow t preserveFocus h =
     (let h1 = emit (OpenTextDocument (uri t)) h in
      if \<not> canOpen h (uri t) then (False, h1)
      else
        let h2 = emit (ShowTextDocument (uri t) (viewColumn t) preserveFocus) h1 in
        (case cursor t of
           None \<Rightarrow> (True, h2)
         | Some c \<Rightarrow>
             if line c < 0 \<or> character c < 0 then (False, h2)
             else (True, recordCursorPosition (uri t) c
                           (emit (SetSelection (uri t) (line c) (character c)) h2))))"

definition closePrompt :: "SessionFileRecord \<Rightarrow> Tab \<Rightarrow> string" where
  "closePrompt entry tab =
     ''Tab '' @ quoted (label tab) @ '' is not part of the session ''
       @ quoted (name entry) @ ''. Close it to continue restoring?''"

text \<open>The loop over the current tabs: \<open>False\<close> when the user cancelled.\<close>

fun closeForeignTabs ::
  "SessionFileRecord \<Rightarrow> string set \<Rightarrow> (Tab \<times> Uri \<times> TabGroup \<times> nat \<times> nat) list \<Rightarrow> host
     \<Rightarrow> bool \<times> host" where
  "closeForeignTabs entry sessionUris [] h = (True, h)"
| "closeForeignTabs entry sessionUris ((tab, u, g, gi, ti) # rest) h =
     (if toString u \<notin> sessionUris then
        (case ask (closePrompt entry tab) [''Close Tab'', ''Cancel Restore''] h of
           (choice, h1) \<Rightarrow>
             if choice \<noteq> Some ''Close Tab''
             then (False, showInformationMessage ''Session restore canceled.'' h1)
             else closeForeignTabs entry sessionUris rest (emit (CloseTab gi ti) h1))
      else closeForeignTabs entry sessionUris rest h)"

text \<open>The replay loop, threading the variable \<^verbatim>\<open>globalActive\<close>.\<close>

fun replayTabs ::
  "SavedTabState list \<Rightarrow> SavedTabState option \<Rightarrow> host \<Rightarrow> SavedTabState option \<times> host" where
  "replayTabs [] globalActive h = (globalActive, h)"
| "replayTabs (tabState # rest) globalActive h =
     (let h1 = (case openAndShow tabState True h of
                  (True, h') \<Rightarrow> h'
                | (False, h') \<Rightarrow>
                    showWarningMessage (''Failed to open file: '' @ fsPath (uri tabState)) h')
      in replayTabs rest (if isGlobalActive tabState then Some tabState else globalActive) h1)"

definition refocus :: "SavedTabState option \<Rightarrow> host \<Rightarrow> host" where
  "refocus globalActive h =
     (case globalActive of
        None \<Rightarrow> h
      | Some t \<Rightarrow>
          (case openAndShow t False h of
             (True, h') \<Rightarrow> h'
           | (False, h') \<Rightarrow> emit ConsoleError h'))"

definition restoreSessionFromEntry :: "SessionFileRecord \<Rightarrow> host \<Rightarrow> host" where
  "restoreSessionFromEntry entry h =
     (case readSessionFile (fullPath entry) h of
        (None, h1) \<Rightarrow> h1
      | (Some sessionData, h1) \<Rightarrow>
          if tabs sessionData = [] then
            showWarningMessage
              (''Session '' @ quoted (name entry) @ '' does not contain any tabs.'') h1
          else
            (case closeForeignTabs entry (set (map uri (tabs sessionData)))
                    (collectTextTabs h1) h1 of
               (False, h2) \<Rightarrow> h2
             | (True, h2) \<Rightarrow>
                 (case replayTabs (sortedTabs (tabs sessionData)) None
                         (emit CloseAllEditors h2) of
                    (globalActive, h3) \<Rightarrow>
                      showInformationMessage
                        (''Restored session '' @ quoted (name entry) @ ''.'')
                        (refocus globalActive h3))))"

text \<open>
  What the loop does for the tabs it closes: one prompt answered with "Close Tab" and one
  close per current tab that the session does not contain.
\<close>

definition closeEvents ::
  "SessionFileRecord \<Rightarrow> string set \<Rightarrow> (Tab \<times> Uri \<times> TabGroup \<times> nat \<times> nat) list \<Rightarrow> event list" where
  "closeEvents entry sessionUris current =
     concat (map (\<lambda>(tab, u, g, gi, ti).
                    if toString u \<notin> sessionUris
                    then [Asked (closePrompt entry tab) [''Close Tab'', ''Cancel Restore'']
                            (Some ''Close Tab''),
                          CloseTab gi ti]
                    else [])
                 current)"

text \<open>Readings of a trace.\<close>

fun openedUris :: "event list \<Rightarrow> string list" where
  "openedUris [] = []"
| "openedUris (OpenTextDocument u # es) = u # openedUris es"
| "openedUris (e # es) = openedUris es"

fun focusRequests :: "event list \<Rightarrow> (string \<times> int option) list" where
  "focusRequests [] = []"
| "focusRequests (ShowTextDocument u vc preserveFocus # es) =
     (if preserveFocus then focusRequests es else (u, vc) # focusRequests es)"
| "focusRequests (e # es) = focusRequests es"


section \<open>Storage locator\<close>

definition SESSION_FOLDER_NAME :: string where
  "SESSION_FOLDER_NAME = ''sessions''"

text \<open>
  \<^verbatim>\<open>updateConfigValue\<close> writes the setting at the scope that holds it; what the code reads
  back afterwards is the new value.
\<close>

definition updateConfigValue :: "string \<Rightarrow> string \<Rightarrow> host \<Rightarrow> host" where
  "updateConfigValue k v h =
     emit (ConfigUpdate k v)
       (if k = ''workspaceFolder'' then h\<lparr>workspaceFolder := Some v\<rparr>
        else if k = ''customFolder'' then h\<lparr>customFolder := Some v\<rparr>
        else if k = ''fileLocation'' then h\<lparr>fileLocation := v\<rparr>
        else h)"

text \<open>
  \<^verbatim>\<open>fs.promises.mkdir(dirPath, { recursive: true })\<close> creates the directory and every missing
  ancestor, and fails when one of them exists as a file.
\<close>

fun pathPrefixes :: "string \<Rightarrow> string \<Rightarrow> string list" where
  "pathPrefixes acc [] = [acc]"
| "pathPrefixes acc (c # cs) =
     (if c = CHR ''/'' \<and> acc \<noteq> [] then acc # pathPrefixes (acc @ [c]) cs
      else pathPrefixes (acc @ [c]) cs)"

fun mkdirs :: "string list \<Rightarrow> (string \<times> node) list \<Rightarrow> string + (string \<times> node) list" where
  "mkdirs [] fs = Inr fs"
| "mkdirs (d # ds) fs =
     (case map_of fs d of
        Some (File c) \<Rightarrow> Inl ''ENOTDIR''
      | Some Dir \<Rightarrow> mkdirs ds fs
      | None \<Rightarrow> mkdirs ds (fs @ [(d, Dir)]))"

definition ensureDirectory :: "string \<Rightarrow> host \<Rightarrow> (string + unit) \<times> host" where
  "ensureDirectory dirPath h =
     (case mkdirs (pathPrefixes [] dirPath) (files h) of
        Inl err \<Rightarrow> (Inl err, h)
      | Inr fs \<Rightarrow> (Inr (), h\<lparr>files := fs\<rparr>))"

definition dirname :: "string \<Rightarrow> string" where
  "dirname p = rev (drop 1 (dropWhile (\<lambda>c. c \<noteq> CHR ''/'') (rev p)))"

text \<open>
  \<^verbatim>\<open>fs.promises.writeFile\<close> creates or replaces a file in an existing directory;
  \<^verbatim>\<open>fs.promises.unlink\<close> removes a file and refuses a directory.
\<close>

definition writeFile :: "string \<Rightarrow> content \<Rightarrow> host \<Rightarrow> (string + unit) \<times> host" where
  "writeFile p c h =
     (case map_of (files h) p of
        Some Dir \<Rightarrow> (Inl ''EISDIR'', h)
      | _ \<Rightarrow>
          if map_of (files h) (dirname p) = Some Dir
          then (Inr (), h\<lparr>files := AList.update p (File c) (files h)\<rparr>)
          else (Inl ''ENOENT'', h))"

definition unlink :: "string \<Rightarrow> host \<Rightarrow> (string + unit) \<times> host" where
  "unlink p h =
     (case map_of (files h) p of
        None \<Rightarrow> (Inl ''ENOENT'', h)
      | Some Dir \<Rightarrow> (Inl ''EISDIR'', h)
      | Some (File c) \<Rightarrow> (Inr (), h\<lparr>files := AList.delete p (files h)\<rparr>))"

definition resolveWorkspaceBase :: "bool \<Rightarrow> bool \<Rightarrow> host \<Rightarrow> string option \<times> host" where
  "resolveWorkspaceBase prompt warn h =
     (case (case workspaceFolder h of
              Some stored \<Rightarrow> if stored \<noteq> [] \<and> existsSync h stored then Some stored else None
            | None \<Rightarrow> None) of
        Some stored \<Rightarrow> (Some stored, h)
      | None \<Rightarrow>
          (case workspaceFolders h of
             [] \<Rightarrow>
               (None,
                if warn
                then showWarningMessage
                       ''No workspace folder is open. Please open a workspace or change the storage location.'' h
                else h)
           | first # others \<Rightarrow>
               if others = [] \<or> \<not> prompt
               then (Some first, updateConfigValue ''workspaceFolder'' first h)
               else
                 (case ask ''Select a workspace folder to store Session Saver files''
                         (workspaceFolders h) h of
                    (None, h1) \<Rightarrow> (None, h1)
                  | (Some picked, h1) \<Rightarrow>
                      (Some picked, updateConfigValue ''workspaceFolder'' picked h1))))"

definition selectFolderDialog :: "string \<Rightarrow> string \<Rightarrow> host \<Rightarrow> string option \<times> host" where
  "selectFolderDialog title openLabel h = ask title [openLabel] h"

definition resolveCustomBase :: "bool \<Rightarrow> bool \<Rightarrow> host \<Rightarrow> string option \<times> host" where
  "resolveCustomBase prompt warn h =
     (case (case customFolder h of
              Some stored \<Rightarrow> if stored \<noteq> [] \<and> existsSync h stored then Some stored else None
            | None \<Rightarrow> None) of
        Some stored \<Rightarrow> (Some stored, h)
      | None \<Rightarrow>
          if \<not> prompt then
            (None,
             if warn
             then showWarningMessage
                    ''Custom session folder is not configured. Please set it via the Session Saver settings or command.'' h
             else h)
          else
            (case selectFolderDialog ''Select a folder to store Session Saver files''
                    ''Use Folder'' h of
               (None, h1) \<Rightarrow> (None, h1)
             | (Some selected, h1) \<Rightarrow>
                 if selected = [] then (None, h1)
                 else (Some selected, updateConfigValue ''customFolder'' selected h1)))"

definition resolveSessionDirectory ::
  "ResolveOptions \<Rightarrow> host \<Rightarrow> (string + string option) \<times> host" where
  "resolveSessionDirectory options h =
     (let prompt = (case promptUser options of None \<Rightarrow> True | Some b \<Rightarrow> b);
          warn = (case showWarning options of None \<Rightarrow> True | Some b \<Rightarrow> b);
          ensure = (case ensureExists options of None \<Rightarrow> False | Some b \<Rightarrow> b);
          location = fileLocation h
      in case (if location = ''global'' then (Some (globalStoragePath h), h)
               else if location = ''workspace'' then resolveWorkspaceBase prompt warn h
               else resolveCustomBase prompt warn h) of
           (basePath, h1) \<Rightarrow>
             (case basePath of
                None \<Rightarrow> (Inr None, h1)
              | Some base \<Rightarrow>
                  if base = [] then (Inr None, h1)
                  else
                    let sessionFolder =
                          (if location = ''workspace''
                           then pathJoin (pathJoin base ''.vscode'') SESSION_FOLDER_NAME
                           else pathJoin base SESSION_FOLDER_NAME)
                    in if ensure then
                         (case ensureDirectory sessionFolder h1 of
                            (Inl err, h2) \<Rightarrow> (Inl err, h2)
                          | (Inr u, h2) \<Rightarrow> (Inr (Some sessionFolder), h2))
                       else (Inr (Some sessionFolder), h1)))"

text \<open>
  \<^verbatim>\<open>path.basename(p, ext)\<close>: the last component of the path, without the extension when
  the component ends in it and is longer than it; the empty string when the whole path is
  the extension.
\<close>

definition endsWith :: "string \<Rightarrow> string \<Rightarrow> bool" where
  "endsWith s suffix = (length suffix \<le> length s \<and> drop (length s - length suffix) s = suffix)"

definition basename :: "string \<Rightarrow> string \<Rightarrow> string" where
  "basename p ext =
     (if ext \<noteq> [] \<and> p = ext then []
      else
        let comp = rev (takeWhile (\<lambda>c. c \<noteq> CHR ''/'') (rev p))
        in if ext \<noteq> [] \<and> length ext < length comp \<and> endsWith comp ext
           then take (length comp - length ext) comp
           else comp)"

text \<open>
  \<^verbatim>\<open>a.localeCompare(b, undefined, { sensitivity: 'base' })\<close> compares the host's collation
  keys of the two strings at base sensitivity, the strength at which letters that differ
  only in case or in accents have the same key. The key function is the host's and is a
  parameter of the listing.
\<close>

definition localeCompare :: "(string \<Rightarrow> 'k::linorder) \<Rightarrow> string \<Rightarrow> string \<Rightarrow> int" where
  "localeCompare collationKey a b =
     (if collationKey a < collationKey b then -1
      else if collationKey b < collationKey a then 1
      else 0)"

text \<open>The chain \<^verbatim>\<open>files.filter(...).map(...).sort(...)\<close> of \<^verbatim>\<open>listSessions\<close>.\<close>

definition sessionRecords ::
  "(string \<Rightarrow> 'k::linorder) \<Rightarrow> string \<Rightarrow> string list \<Rightarrow> SessionFileRecord list" where
  "sessionRecords collationKey folder fileNames =
     sortBy (\<lambda>a b. localeCompare collationKey (name a) (name b))
       (map (\<lambda>file. \<lparr>name = basename file ''.json'', fullPath = pathJoin folder file\<rparr>)
          (filter (\<lambda>file. endsWith file ''.json'') fileNames))"

definition listSessions ::
  "(string \<Rightarrow> 'k::linorder) \<Rightarrow> ResolveOptions \<Rightarrow> host
     \<Rightarrow> (string + SessionFileRecord list \<times> string option) \<times> host" where
  "listSessions collationKey options h =
     (case resolveSessionDirectory options h of
        (Inl err, h1) \<Rightarrow> (Inl err, h1)
      | (Inr None, h1) \<Rightarrow> (Inr ([], None), h1)
      | (Inr (Some folder), h1) \<Rightarrow>
          if \<not> existsSync h1 folder then (Inr ([], Some folder), h1)
          else
            (case readdir h1 folder of
               Inl err \<Rightarrow> (Inl err, h1)
             | Inr fileNames \<Rightarrow>
                 (Inr (sessionRecords collationKey folder fileNames, Some folder), h1)))"

definition pickSessionEntry ::
  "(string \<Rightarrow> 'k::linorder) \<Rightarrow> string \<Rightarrow> host \<Rightarrow> (string + SessionFileRecord option) \<times> host" where
  "pickSessionEntry collationKey placeHolder h =
     (case listSessions collationKey
             \<lparr>promptUser = Some False, showWarning = Some True, ensureExists = None\<rparr> h of
        (Inl err, h1) \<Rightarrow> (Inl err, h1)
      | (Inr (entries, folder), h1) \<Rightarrow>
          if entries = [] then (Inr None, showWarningMessage ''No sessions found.'' h1)
          else
            (case ask placeHolder (map name entries) h1 of
               (None, h2) \<Rightarrow> (Inr None, h2)
             | (Some picked, h2) \<Rightarrow> (Inr (find (\<lambda>e. name e = picked) entries), h2)))"

definition entryFromArgument :: "arg \<Rightarrow> host \<Rightarrow> (string + SessionFileRecord option) \<times> host" where
  "entryFromArgument a h =
     (case a of
        NoArg \<Rightarrow> (Inr None, h)
      | ArgRecord r \<Rightarrow>
          if existsSync h (fullPath r) then (Inr (Some r), h)
          else (Inr None, showWarningMessage (''Session file not found: '' @ fullPath r) h)
      | ArgString s \<Rightarrow>
          if s = [] then (Inr None, h)
          else
            let normalized = (if endsWith s ''.json'' then s else s @ ''.json'')
            in if existsSync h normalized
               then (Inr (Some \<lparr>name = basename normalized ''.json'', fullPath = normalized\<rparr>), h)
               else
                 (case resolveSessionDirectory
                         \<lparr>promptUser = Some False, showWarning = Some False, ensureExists = None\<rparr> h of
                    (Inl err, h1) \<Rightarrow> (Inl err, h1)
                  | (Inr folder, h1) \<Rightarrow>
                      (case (case folder of
                               None \<Rightarrow> None
                             | Some f \<Rightarrow>
                                 let candidate = pathJoin f normalized
                                 in if existsSync h1 candidate
                                    then Some \<lparr>name = basename candidate ''.json'',
                                               fullPath = candidate\<rparr>
                                    else None) of
                         Some r \<Rightarrow> (Inr (Some r), h1)
                       | None \<Rightarrow> (Inr None, showWarningMessage ''Session file not found.'' h1))))"

text \<open>
  The opening of the delete, overwrite and restore-named handlers: the entry of the
  argument, or else the one the user picks.
\<close>

definition selectEntry ::
  "(string \<Rightarrow> 'k::linorder) \<Rightarrow> string \<Rightarrow> arg \<Rightarrow> host
     \<Rightarrow> (string + SessionFileRecord option) \<times> host" where
  "selectEntry collationKey placeHolder a h =
     (case entryFromArgument a h of
        (Inl err, h1) \<Rightarrow> (Inl err, h1)
      | (Inr (Some entry), h1) \<Rightarrow> (Inr (Some entry), h1)
      | (Inr None, h1) \<Rightarrow> pickSessionEntry collationKey placeHolder h1)"

section \<open>Commands\<close>

text \<open>
  The host's \<^verbatim>\<open>workspace.saveAll()\<close> writes the buffer of every dirty document that has a
  file to that file and clears the flag; untitled documents are left out.
\<close>

definition saveAll :: "host \<Rightarrow> host" where
  "saveAll h =
     emit SaveAll
       (h\<lparr>files := foldl (\<lambda>fs d. if isDirty d \<and> \<not> isUntitled d
                                   then AList.update (fileName d) (File (getText d)) fs
                                   else fs)
                        (files h) (textDocuments h),
          textDocuments := map (\<lambda>d. if isUntitled d then d else d\<lparr>isDirty := False\<rparr>)
                             (textDocuments h)\<rparr>)"

definition refresh :: "host \<Rightarrow> host" where
  "refresh h = emit RefreshTree h"

fun showNat :: "nat \<Rightarrow> string" where
  "showNat n =
     (if n < 10 then [char_of (48 + n)]
      else showNat (n div 10) @ [char_of (48 + n mod 10)])"

declare showNat.simps [simp del]

text \<open>Labels that are not plain ASCII, as the bytes of their UTF-8 encoding.\<close>

definition YES_SAVE_AND_CONTINUE :: string where
  "YES_SAVE_AND_CONTINUE = ''Yes '' @ [CHR 0xE2, CHR 0x80, CHR 0x94] @ '' Save and Continue''"

definition NO_JUST_SWITCH :: string where
  "NO_JUST_SWITCH = ''No '' @ [CHR 0xE2, CHR 0x80, CHR 0x94] @ '' Just Switch''"

definition SAVE_AND_CONTINUE :: string where
  "SAVE_AND_CONTINUE = [CHR 0xF0, CHR 0x9F, CHR 0x92, CHR 0xBE] @ '' Save and Continue''"

definition CONTINUE_WITHOUT_SAVING :: string where
  "CONTINUE_WITHOUT_SAVING =
     [CHR 0xE2, CHR 0x9A, CHR 0xA0, CHR 0xEF, CHR 0xB8, CHR 0x8F] @ '' Continue Without Saving''"

definition getAutoSaveBehavior :: "host \<Rightarrow> string" where
  "getAutoSaveBehavior h =
     (if saveBehaviorOnRestore h = ''yes - save and continue'' then ''yes''
      else if saveBehaviorOnRestore h = ''no - just switch'' then ''no''
      else ''ask'')"

text \<open>\<^verbatim>\<open>JSON.stringify(snapshot, null, 2)\<close>, up to parsing.\<close>

definition stringify :: "SessionFileContent \<Rightarrow> content" where
  "stringify snapshot =
     Json (JObj [(''version'', JNum (version snapshot)), (''tabs'', JArr (tabs snapshot))])"

text \<open>
  \<^verbatim>\<open>`session-${new Date().toISOString().replace(/[:.]/g, '-')}`\<close>, the host's clock giving
  the ISO string.
\<close>

definition timestampName :: "host \<Rightarrow> string" where
  "timestampName h =
     ''session-'' @ map (\<lambda>c. if c = CHR '':'' \<or> c = CHR ''.'' then CHR ''-'' else c) (now h)"

text \<open>
  \<^verbatim>\<open>if (!sessionName) { sessionName = ... }\<close>: \<^verbatim>\<open>undefined\<close> (the input box was dismissed) and the
  empty string are both falsy.
\<close>

definition nameOrTimestamp :: "string option \<Rightarrow> host \<Rightarrow> string" where
  "nameOrTimestamp answer h =
     (case answer of
        None \<Rightarrow> timestampName h
      | Some s \<Rightarrow> if s = [] then timestampName h else s)"

text \<open>
  The end of the two saving paths: resolve the directory (creating it), write the file,
  tell the user, refresh the sidebar. \<open>False\<close> when no directory could be resolved.
\<close>

definition storeSnapshot ::
  "string \<Rightarrow> SessionFileContent \<Rightarrow> host \<Rightarrow> (string + bool) \<times> host" where
  "storeSnapshot sessionName snapshot h =
     (case resolveSessionDirectory
             \<lparr>promptUser = Some True, showWarning = Some True, ensureExists = Some True\<rparr> h of
        (Inl err, h1) \<Rightarrow> (Inl err, h1)
      | (Inr None, h1) \<Rightarrow> (Inr False, h1)
      | (Inr (Some sessionFolder), h1) \<Rightarrow>
          (case writeFile (pathJoin sessionFolder (sessionName @ ''.json''))
                  (stringify snapshot) h1 of
             (Inl err, h2) \<Rightarrow> (Inl err, h2)
           | (Inr u, h2) \<Rightarrow>
               (Inr True,
                refresh
                  (showInformationMessage
                     (''Session '' @ quoted sessionName @ '' saved with ''
                        @ showNat (length (tabs snapshot)) @ '' tabs.'') h2))))"

definition saveSession :: "host \<Rightarrow> (string + unit) \<times> host" where
  "saveSession h =
     (case ask ''Enter a name for this session'' [] h of
        (answer, h1) \<Rightarrow>
          let sessionName = nameOrTimestamp answer h1;
              snapshot = createSessionSnapshot h1
          in if tabs snapshot = []
             then (Inr (), showInformationMessage ''No supported tabs to save.'' h1)
             else
               (case storeSnapshot sessionName snapshot h1 of
                  (Inl err, h2) \<Rightarrow> (Inl err, h2)
                | (Inr written, h2) \<Rightarrow> (Inr (), h2)))"

definition restoreSession :: "(string \<Rightarrow> 'k::linorder) \<Rightarrow> host \<Rightarrow> (string + unit) \<times> host" where
  "restoreSession collationKey h =
     (case pickSessionEntry collationKey ''Select a session to restore'' h of
        (Inl err, h1) \<Rightarrow> (Inl err, h1)
      | (Inr None, h1) \<Rightarrow> (Inr (), h1)
      | (Inr (Some entry), h1) \<Rightarrow> (Inr (), restoreSessionFromEntry entry h1))"

text \<open>
  The question about unsaved files, asked in the same words by the save branch of
  restore-named and by overwrite. \<open>False\<close> when the user chose "Cancel"; a dismissal goes on
  without saving.
\<close>

definition confirmUnsaved :: "host \<Rightarrow> bool \<times> host" where
  "confirmUnsaved h =
     (let unsavedDocs = filter (\<lambda>d. isDirty d \<and> \<not> isUntitled d) (textDocuments h)
      in if unsavedDocs \<noteq> [] then
           (case ask (''You have '' @ showNat (length unsavedDocs)
                        @ '' unsaved file(s). What do you want to do?'')
                     [SAVE_AND_CONTINUE, CONTINUE_WITHOUT_SAVING, ''Cancel''] h of
              (saveConfirm, h1) \<Rightarrow>
                if saveConfirm = Some SAVE_AND_CONTINUE then (True, saveAll h1)
                else if saveConfirm = Some ''Cancel'' then (False, h1)
                else (True, h1))
         else (True, h))"

text \<open>
  The save branch of restore-named. \<open>False\<close> when the handler returns without restoring.
\<close>

definition saveBeforeSwitch :: "host \<Rightarrow> (string + bool) \<times> host" where
  "saveBeforeSwitch h =
     (case confirmUnsaved h of
        (False, h1) \<Rightarrow> (Inr False, h1)
      | (True, h1) \<Rightarrow>
          let snapshot = createSessionSnapshot h1
          in if tabs snapshot = []
             then (Inr False, showInformationMessage ''No supported tabs to save.'' h1)
             else
               (case ask ''Enter a name to save your current session'' [] h1 of
                  (answer, h2) \<Rightarrow> storeSnapshot (nameOrTimestamp answer h2) snapshot h2))"

definition restoreNamedSession ::
  "(string \<Rightarrow> 'k::linorder) \<Rightarrow> arg \<Rightarrow> host \<Rightarrow> (string + unit) \<times> host" where
  "restoreNamedSession collationKey a h =
     (case selectEntry collationKey ''Select a session to restore'' a h of
        (Inl err, h1) \<Rightarrow> (Inl err, h1)
      | (Inr None, h1) \<Rightarrow> (Inr (), h1)
      | (Inr (Some entry), h1) \<Rightarrow>
          if list_ex (\<lambda>d. \<not> isUntitled d \<and> \<not> isClosed d) (textDocuments h1) then
            (case (let behavior = getAutoSaveBehavior h1
                   in if behavior = ''yes'' then (Some YES_SAVE_AND_CONTINUE, h1)
                      else if behavior = ''no'' then (Some NO_JUST_SWITCH, h1)
                      else ask ''Save current open files as a session before switching?''
                             [YES_SAVE_AND_CONTINUE, NO_JUST_SWITCH, ''Cancel''] h1) of
               (finalChoice, h2) \<Rightarrow>
                 if finalChoice = Some ''Cancel'' \<or> finalChoice = None \<or> finalChoice = Some []
                 then (Inr (), h2)
                 else if finalChoice = Some YES_SAVE_AND_CONTINUE then
                   (case saveBeforeSwitch h2 of
                      (Inl err, h3) \<Rightarrow> (Inl err, h3)
                    | (Inr False, h3) \<Rightarrow> (Inr (), h3)
                    | (Inr True, h3) \<Rightarrow> (Inr (), restoreSessionFromEntry entry h3))
                 else (Inr (), restoreSessionFromEntry entry h2))
          else (Inr (), restoreSessionFromEntry entry h1))"

text \<open>The delete handler from its confirmation on, and the handler.\<close>

definition confirmAndDelete :: "SessionFileRecord \<Rightarrow> host \<Rightarrow> (string + unit) \<times> host" where
  "confirmAndDelete entry h =
     (case ask (''Delete session '' @ quoted (name entry) @ ''?'') [''Delete''] h of
        (confirm, h1) \<Rightarrow>
          if confirm \<noteq> Some ''Delete'' then (Inr (), h1)
          else
            (case (if existsSync h1 (fullPath entry) then unlink (fullPath entry) h1
                   else (Inr (), h1)) of
               (Inl err, h2) \<Rightarrow> (Inl err, h2)
             | (Inr u, h2) \<Rightarrow>
                 (Inr (),
                  refresh (showInformationMessage
                             (''Deleted session '' @ quoted (name entry) @ ''.'') h2))))"

definition deleteSession ::
  "(string \<Rightarrow> 'k::linorder) \<Rightarrow> arg \<Rightarrow> host \<Rightarrow> (string + unit) \<times> host" where
  "deleteSession collationKey a h =
     (case selectEntry collationKey ''Select a session to delete'' a h of
        (Inl err, h1) \<Rightarrow> (Inl err, h1)
      | (Inr None, h1) \<Rightarrow> (Inr (), h1)
      | (Inr (Some entry), h1) \<Rightarrow> confirmAndDelete entry h1)"



section \<open>Sample hosts\<close>

definition idleHost :: host where
  "idleHost =
     \<lparr>files = [], tabGroups = [], activeTabGroup = None, textDocuments = [],
      canOpen = (\<lambda>u. True), workspaceFolders = [], globalStoragePath = ''/global'',
      fileLocation = ''workspace'', workspaceFolder = None, customFolder = None,
      saveBehaviorOnRestore = ''ask'', lastKnownCursorPositions = Map.empty,
      now = ''2025-11-10T08:00:00.000Z'', answers = [], trace = []\<rparr>"

definition fileUri :: "string \<Rightarrow> Uri" where
  "fileUri p = \<lparr>scheme = ''file'', toString = ''file://'' @ p\<rparr>"

definition textTab :: "string \<Rightarrow> string \<Rightarrow> bool \<Rightarrow> Tab" where
  "textTab lbl p act = \<lparr>label = lbl, input = TabInputText (fileUri p), isActive = act\<rparr>"

definition savedTab :: "string \<Rightarrow> int \<Rightarrow> int \<Rightarrow> bool \<Rightarrow> bool \<Rightarrow> SavedTabState" where
  "savedTab p gi ti ga gl =
     \<lparr>uri = ''file://'' @ p, groupIndex = gi, tabIndex = ti, viewColumn = Some (gi + 1),
      isGroupActive = ga, isGlobalActive = gl, cursor = None\<rparr>"

definition sessionJson :: "SavedTabState list \<Rightarrow> content" where
  "sessionJson ts = Json (JObj [(''version'', JNum 2), (''tabs'', JArr ts)])"

definition workEntry :: SessionFileRecord where
  "workEntry = \<lparr>name = ''work'', fullPath = ''/w/.vscode/sessions/work.json''\<rparr>"

definition xyGroup :: TabGroup where
  "xyGroup = \<lparr>TabGroup.tabs = [textTab ''x.ts'' ''/w/x.ts'' False, textTab ''y.ts'' ''/w/y.ts'' True],
              TabGroup.viewColumn = 1, activeTab = Some 1\<rparr>"

text \<open>
  A workspace \<^verbatim>\<open>/w\<close> with one stored session, \<^verbatim>\<open>work\<close>, of a single tab \<^verbatim>\<open>a.ts\<close>, and an
  editor showing \<^verbatim>\<open>x.ts\<close> and \<^verbatim>\<open>y.ts\<close> in one group.
\<close>

definition projectHost :: host where
  "projectHost = idleHost
     \<lparr>files := [(''/w'', Dir), (''/w/.vscode'', Dir), (''/w/.vscode/sessions'', Dir),
                (''/w/.vscode/sessions/work.json'',
                   File (sessionJson [savedTab ''/w/a.ts'' 0 0 True True]))],
      tabGroups := [xyGroup],
      activeTabGroup := Some 0,
      workspaceFolders := [''/w'']\<rparr>"

text \<open>
  The same workspace with no editor open, the session holding the three descriptors of the
  specification's ordering example, the first two marked as the window's focused tab.
\<close>

definition threeTabs :: "SavedTabState list" where
  "threeTabs = [savedTab ''/w/one.ts'' 0 1 False True,
                savedTab ''/w/zero.ts'' 0 0 False True,
                savedTab ''/w/act.ts'' 0 0 True False]"

definition orderHost :: host where
  "orderHost = idleHost
     \<lparr>files := [(''/w'', Dir), (''/w/.vscode'', Dir), (''/w/.vscode/sessions'', Dir),
                (''/w/.vscode/sessions/work.json'', File (sessionJson threeTabs))],
      workspaceFolders := [''/w'']\<rparr>"

text \<open>
  A collation key that folds ASCII letters to lower case, and a session directory holding
  three sessions, a text file and a subdirectory.
\<close>

definition asciiFold :: "string \<Rightarrow> nat list" where
  "asciiFold s = map (\<lambda>c. let n = of_char c in if 65 \<le> n \<and> n \<le> 90 then n + 32 else n) s"

definition listingHost :: host where
  "listingHost = idleHost
     \<lparr>files := [(''/w'', Dir), (''/w/.vscode'', Dir), (''/w/.vscode/sessions'', Dir),
                (''/w/.vscode/sessions/b.json'', File (sessionJson [savedTab ''/w/b.ts'' 0 0 True True])),
                (''/w/.vscode/sessions/notes.txt'', File NotJson),
                (''/w/.vscode/sessions/C.json'', File (sessionJson [savedTab ''/w/c.ts'' 0 0 True True])),
                (''/w/.vscode/sessions/a.json'', File (sessionJson [savedTab ''/w/a.ts'' 0 0 True True])),
                (''/w/.vscode/sessions/old'', Dir),
                (''/w/.vscode/sessions/old/z.json'', File NotJson)],
      workspaceFolder := Some ''/w'',
      workspaceFolders := [''/w'']\<rparr>"

definition quietOptions :: ResolveOptions where
  "quietOptions = \<lparr>promptUser = Some False, showWarning = Some False, ensureExists = None\<rparr>"

definition bEntry :: SessionFileRecord where
  "bEntry = \<lparr>name = ''b'', fullPath = ''/w/.vscode/sessions/b.json''\<rparr>"

definition goneEntry :: SessionFileRecord where
  "goneEntry = \<lparr>name = ''gone'', fullPath = ''/w/.vscode/sessions/gone.json''\<rparr>"

text \<open>
  The project workspace with its two documents open and the setting that saves the current
  tabs before every switch.
\<close>

definition plainDocument :: "string \<Rightarrow> bool \<Rightarrow> TextDocument" where
  "plainDocument p dirty =
     \<lparr>fileName = p, getText = NotJson, isUntitled = False, isClosed = False, isDirty = dirty\<rparr>"

definition switchingHost :: host where
  "switchingHost = projectHost
     \<lparr>textDocuments := [plainDocument ''/w/x.ts'' False, plainDocument ''/w/y.ts'' False],
      saveBehaviorOnRestore := ''yes - save and continue''\<rparr>"

definition saveOptions :: ResolveOptions where
  "saveOptions = \<lparr>promptUser = Some True, showWarning = Some True, ensureExists = Some True\<rparr>"


section \<open>Properties\<close>

lemma insertBy_insort_key:
  assumes "\<And>y. (cmp x y \<le> 0) = (f x \<le> f y)"
  shows "insertBy cmp x ys = insort_key f x ys"
  by (induction ys) (simp_all add: assms)

lemma sortBy_sort_key:
  assumes "\<And>x y. (cmp x y \<le> 0) = (f x \<le> f y)"
  shows "sortBy cmp xs = sort_key f xs"
  unfolding sortBy_def sort_key_def
  by (induction xs) (simp_all add: insertBy_insort_key [of cmp _ f] assms)

lemma compareTabs_replayKey: "(compareTabs a b \<le> 0) = (replayKey a \<le> replayKey b)"
  by (auto simp: compareTabs_def replayKey_def less_eq_prod_def)

lemma sortedTabs_sort_key: "sortedTabs ts = sort_key replayKey ts"
  unfolding sortedTabs_def by (rule sortBy_sort_key) (rule compareTabs_replayKey)

subsection \<open>Loading a session file\<close>

lemma trace_emit [simp]: "trace (emit e h) = trace h @ [e]"
  by (simp add: emit_def)

lemma files_emit [simp]: "files (emit e h) = files h"
  by (simp add: emit_def)

lemma trace_showWarningMessage [simp]:
  "trace (showWarningMessage m h) = trace h @ [ShowWarningMessage m]"
  by (simp add: showWarningMessage_def)

lemma files_showWarningMessage [simp]: "files (showWarningMessage m h) = files h"
  by (simp add: showWarningMessage_def)

text \<open>
  C5. When the file parses to an object with a \<open>tabs\<close> array, \<^verbatim>\<open>readSessionFile\<close> returns a
  session document holding exactly the parsed tabs and shows nothing; its version is the
  \<open>version\<close> property when that is a number, and 1 when the property is absent or anything
  else.
\<close>

theorem readSessionFile_version_default:
  assumes "readFile h p = Inr (Json (JObj props))"
    and "lookupProperty props ''tabs'' = Some (JArr ts)"
  shows "(\<forall>v. lookupProperty props ''version'' = Some (JNum v) \<longrightarrow>
            readSessionFile p h = (Some \<lparr>version = v, tabs = ts\<rparr>, h))
       \<and> ((\<forall>v. lookupProperty props ''version'' \<noteq> Some (JNum v)) \<longrightarrow>
            readSessionFile p h = (Some \<lparr>version = 1, tabs = ts\<rparr>, h))"
  using assms
  by (auto simp: readSessionFile_def split: option.splits json.splits)

theorem readSessionFile_version_default_witness:
  "readSessionFile ''/s/a.json''
     (idleHost\<lparr>files := [(''/s/a.json'', File (Json (JObj [(''tabs'', JArr [])])))]\<rparr>)
     = (Some \<lparr>version = 1, tabs = []\<rparr>,
        idleHost\<lparr>files := [(''/s/a.json'', File (Json (JObj [(''tabs'', JArr [])])))]\<rparr>)
   \<and> readSessionFile ''/s/a.json''
     (idleHost\<lparr>files := [(''/s/a.json'',
                  File (Json (JObj [(''version'', JNum 2), (''tabs'', JArr [])])))]\<rparr>)
     = (Some \<lparr>version = 2, tabs = []\<rparr>,
        idleHost\<lparr>files := [(''/s/a.json'',
                  File (Json (JObj [(''version'', JNum 2), (''tabs'', JArr [])])))]\<rparr>)"
  using readSessionFile_version_default
          [of "idleHost\<lparr>files := [(''/s/a.json'', File (Json (JObj [(''tabs'', JArr [])])))]\<rparr>"
              "''/s/a.json''" "[(''tabs'', JArr [])]" "[]"]
        readSessionFile_version_default
          [of "idleHost\<lparr>files := [(''/s/a.json'',
                  File (Json (JObj [(''version'', JNum 2), (''tabs'', JArr [])])))]\<rparr>"
              "''/s/a.json''" "[(''version'', JNum 2), (''tabs'', JArr [])]" "[]"]
  by (simp add: readFile_def lookupProperty_def)

text \<open>
  C4. When the file is anything but a JSON object with a \<open>tabs\<close> array, \<^verbatim>\<open>readSessionFile\<close>
  returns no data, leaves the files alone, and shows exactly one warning: "not found" when
  the read fails with \<^verbatim>\<open>ENOENT\<close>, "failed to read" when the read fails otherwise or the text
  is not JSON (both also logged to the console), and "invalid" when the text parses to
  something else. The function has no other outcome: it always returns to its caller.
\<close>

theorem readSessionFile_no_data:
  assumes "\<not> (\<exists>props ts. readFile h p = Inr (Json (JObj props))
                      \<and> lookupProperty props ''tabs'' = Some (JArr ts))"
  shows "fst (readSessionFile p h) = None
       \<and> files (snd (readSessionFile p h)) = files h
       \<and> trace (snd (readSessionFile p h)) = trace h @
           (case readFile h p of
              Inl code \<Rightarrow>
                if code = ''ENOENT''
                then [ShowWarningMessage (''Session file not found: '' @ p)]
                else [ShowWarningMessage (''Failed to read session file: '' @ p), ConsoleError]
            | Inr NotJson \<Rightarrow>
                [ShowWarningMessage (''Failed to read session file: '' @ p), ConsoleError]
            | Inr (Json v) \<Rightarrow> [ShowWarningMessage (''Session file is invalid: '' @ p)])"
  using assms
  by (auto simp: readSessionFile_def split: sum.splits content.splits json.splits option.splits)

theorem readSessionFile_no_data_witness:
  "fst (readSessionFile ''/s/a.json'' idleHost) = None
   \<and> trace (snd (readSessionFile ''/s/a.json'' idleHost))
       = [ShowWarningMessage ''Session file not found: /s/a.json'']
   \<and> fst (readSessionFile ''/s/a.json''
        (idleHost\<lparr>files := [(''/s/a.json'', File NotJson)]\<rparr>)) = None
   \<and> trace (snd (readSessionFile ''/s/a.json''
        (idleHost\<lparr>files := [(''/s/a.json'', File NotJson)]\<rparr>)))
       = [ShowWarningMessage ''Failed to read session file: /s/a.json'', ConsoleError]
   \<and> fst (readSessionFile ''/s/a.json''
        (idleHost\<lparr>files := [(''/s/a.json'', File (Json (JObj [(''tabs'', JNum 3)])))]\<rparr>)) = None
   \<and> trace (snd (readSessionFile ''/s/a.json''
        (idleHost\<lparr>files := [(''/s/a.json'', File (Json (JObj [(''tabs'', JNum 3)])))]\<rparr>)))
       = [ShowWarningMessage ''Session file is invalid: /s/a.json'']"
  using readSessionFile_no_data [of idleHost "''/s/a.json''"]
        readSessionFile_no_data [of "idleHost\<lparr>files := [(''/s/a.json'', File NotJson)]\<rparr>" "''/s/a.json''"]
        readSessionFile_no_data
          [of "idleHost\<lparr>files := [(''/s/a.json'', File (Json (JObj [(''tabs'', JNum 3)])))]\<rparr>"
              "''/s/a.json''"]
  by (simp add: readFile_def lookupProperty_def idleHost_def)

subsection \<open>Restore: auxiliary facts\<close>

lemma closeForeignTabs_append:
  "closeForeignTabs e S (pre @ post) h =
     (case closeForeignTabs e S pre h of
        (False, h') \<Rightarrow> (False, h')
      | (True, h') \<Rightarrow> closeForeignTabs e S post h')"
  by (induction e S pre h rule: closeForeignTabs.induct)
     (auto split: prod.splits bool.splits)

lemma closeForeignTabs_True:
  "closeForeignTabs e S cur h = (True, h2) \<Longrightarrow>
     h2 = h\<lparr>answers := answers h2, trace := trace h @ closeEvents e S cur\<rparr>"
proof (induction e S cur h rule: closeForeignTabs.induct)
  case (1 entry sessionUris h)
  then show ?case by (simp add: closeEvents_def)
next
  case (2 entry sessionUris tab u g gi ti rest h)
  show ?case
  proof (cases "toString u \<in> sessionUris")
    case True
    with 2 show ?thesis by (simp add: closeEvents_def)
  next
    case False
    obtain choice h1 where a: "ask (closePrompt entry tab) [''Close Tab'', ''Cancel Restore''] h = (choice, h1)"
      by (cases "ask (closePrompt entry tab) [''Close Tab'', ''Cancel Restore''] h")
    from False a "2.prems" have c: "choice = Some ''Close Tab''"
      by (auto simp: showInformationMessage_def split: if_splits)
    from False a c "2.prems" have r: "closeForeignTabs entry sessionUris rest (emit (CloseTab gi ti) h1) = (True, h2)"
      by simp
    from a c obtain A where h1: "h1 = h\<lparr>answers := A, trace := trace h @ [Asked (closePrompt entry tab) [''Close Tab'', ''Cancel Restore''] (Some ''Close Tab'')]\<rparr>"
      by (auto simp: ask_def emit_def split: list.splits)
    have "h2 = (emit (CloseTab gi ti) h1)\<lparr>answers := answers h2, trace := trace (emit (CloseTab gi ti) h1) @ closeEvents entry sessionUris rest\<rparr>"
      using "2.IH"(1) [OF False a [symmetric] _ r] c by simp
    then show ?thesis using False
      unfolding h1 by (simp add: emit_def closeEvents_def)
  qed
qed

lemma closeForeignTabs_cancel:
  assumes "toString u \<notin> S"
    and "answers h = [] \<or> hd (answers h) \<noteq> Some ''Close Tab''"
  shows "closeForeignTabs e S ((tab, u, g, gi, ti) # post) h =
           (False, showInformationMessage ''Session restore canceled.''
                     (snd (ask (closePrompt e tab) [''Close Tab'', ''Cancel Restore''] h)))"
  using assms by (auto simp: ask_def split: list.splits)

lemma readSessionFile_Some:
  "readSessionFile p h = (Some sd, h1) \<Longrightarrow> h1 = h"
  by (auto simp: readSessionFile_def split: sum.splits content.splits json.splits option.splits if_splits)

lemma closeEvents_only:
  "x \<in> set (closeEvents e S cur) \<Longrightarrow> (\<exists>m i a. x = Asked m i a) \<or> (\<exists>gi ti. x = CloseTab gi ti)"
  by (auto simp: closeEvents_def split: if_splits)

lemma openedUris_closeEvents: "openedUris (closeEvents e S cur) = []"
  by (induction cur) (auto simp: closeEvents_def)

lemma openedUris_append: "openedUris (xs @ ys) = openedUris xs @ openedUris ys"
  by (induction xs rule: openedUris.induct) simp_all

lemma focusRequests_append: "focusRequests (xs @ ys) = focusRequests xs @ focusRequests ys"
  by (induction xs rule: focusRequests.induct) simp_all

lemma canOpen_emit [simp]: "canOpen (emit e h) = canOpen h"
  by (simp add: emit_def)

lemma openAndShow_openedUris:
  "openedUris (trace (snd (openAndShow t pf h))) = openedUris (trace h) @ [uri t]"
  by (simp add: openAndShow_def Let_def recordCursorPosition_def openedUris_append split: option.splits)

lemma openAndShow_canOpen: "canOpen (snd (openAndShow t pf h)) = canOpen h"
  by (simp add: openAndShow_def Let_def recordCursorPosition_def split: option.splits)

lemma openAndShow_focusRequests:
  "focusRequests (trace (snd (openAndShow t pf h))) =
     focusRequests (trace h) @ (if canOpen h (uri t) \<and> \<not> pf then [(uri t, viewColumn t)] else [])"
  by (simp add: openAndShow_def Let_def recordCursorPosition_def focusRequests_append split: option.splits)

lemma replayTabs_fst:
  "fst (replayTabs ts ga h) =
     (if filter isGlobalActive ts = [] then ga else Some (last (filter isGlobalActive ts)))"
  by (induction ts arbitrary: ga h) (simp_all add: Let_def)

lemma replayTabs_canOpen: "canOpen (snd (replayTabs ts ga h)) = canOpen h"
  by (induction ts arbitrary: ga h)
     (simp_all add: Let_def showWarningMessage_def split: prod.splits bool.splits,
      (metis openAndShow_canOpen snd_conv)+)


lemma replayTabs_focusRequests:
  "focusRequests (trace (snd (replayTabs ts ga h))) = focusRequests (trace h)"
proof (induction ts arbitrary: ga h)
  case Nil
  show ?case by simp
next
  case (Cons t ts)
  obtain ok h' where oa: "openAndShow t True h = (ok, h')" by (cases "openAndShow t True h")
  have "focusRequests (trace h') = focusRequests (trace h)"
    using openAndShow_focusRequests [of t True h] oa by simp
  then show ?case using oa
    by (cases ok) (simp_all add: Cons.IH focusRequests_append)
qed



lemma refocus_openedUris:
  "openedUris (trace (refocus ga h)) =
     openedUris (trace h) @ (case ga of None \<Rightarrow> [] | Some t \<Rightarrow> [uri t])"
proof (cases ga)
  case None
  then show ?thesis by (simp add: refocus_def)
next
  case (Some t)
  obtain ok h' where oa: "openAndShow t False h = (ok, h')" by (cases "openAndShow t False h")
  have "openedUris (trace h') = openedUris (trace h) @ [uri t]"
    using openAndShow_openedUris [of t False h] oa by simp
  then show ?thesis using Some oa
    by (cases ok) (simp_all add: refocus_def openedUris_append)
qed

lemma restore_proceeds:
  assumes "readSessionFile (fullPath entry) h = (Some sd, h1)"
    and "tabs sd \<noteq> []"
    and "closeForeignTabs entry (set (map uri (tabs sd))) (collectTextTabs h) h = (True, h2)"
  shows "restoreSessionFromEntry entry h =
           showInformationMessage (''Restored session '' @ quoted (name entry) @ ''.'')
             (refocus (fst (replayTabs (sortedTabs (tabs sd)) None (emit CloseAllEditors h2)))
                      (snd (replayTabs (sortedTabs (tabs sd)) None (emit CloseAllEditors h2))))"
  using assms readSessionFile_Some [OF assms(1)]
  by (simp add: restoreSessionFromEntry_def split: prod.splits)

lemma trace_showInformationMessage [simp]:
  "trace (showInformationMessage m h) = trace h @ [ShowInformationMessage m]"
  by (simp add: showInformationMessage_def)

subsection \<open>Restore: the replay order\<close>


lemma readSessionFile_orderHost:
  "readSessionFile (fullPath workEntry) orderHost = (Some \<lparr>version = 2, tabs = threeTabs\<rparr>, orderHost)"
  by (simp add: readSessionFile_def readFile_def lookupProperty_def orderHost_def idleHost_def
        workEntry_def sessionJson_def)

lemma collectTextTabs_orderHost: "collectTextTabs orderHost = []"
  by (simp add: collectTextTabs_def orderHost_def idleHost_def)


subsection \<open>Restore: tabs that are not part of the session\<close>

text \<open>
  C6. Let the restore have read a session with tabs, and let the loop over the open
  file-backed tabs have come, every earlier prompt answered "Close Tab", to a tab whose
  URI the session does not contain. If the answer to its prompt is anything but "Close Tab"
  (a dismissal included), the restore returns at once: the host differs from the one it
  started in only by the answers consumed and by the trace, which has gained one prompt and
  one close for each foreign tab before, the prompt for this tab, and the message
  "Session restore canceled."; no close-all is among them and no document is opened.
\<close>

theorem restore_cancel:
  assumes read: "readSessionFile (fullPath entry) h = (Some sd, h1)"
    and nonempty: "tabs sd \<noteq> []"
    and cur: "collectTextTabs h = pre @ (tab, u, g, gi, ti) # post"
    and foreign: "toString u \<notin> set (map uri (tabs sd))"
    and reached: "closeForeignTabs entry (set (map uri (tabs sd))) pre h = (True, h2)"
    and declined: "answers h2 = [] \<or> hd (answers h2) \<noteq> Some ''Close Tab''"
  shows "restoreSessionFromEntry entry h =
           h\<lparr>answers := tl (answers h2),
             trace := trace h @ closeEvents entry (set (map uri (tabs sd))) pre @
                [Asked (closePrompt entry tab) [''Close Tab'', ''Cancel Restore'']
                   (case answers h2 of [] \<Rightarrow> None | a # rest \<Rightarrow> a),
                 ShowInformationMessage ''Session restore canceled.'']\<rparr>
       \<and> CloseAllEditors \<notin> set (closeEvents entry (set (map uri (tabs sd))) pre)
       \<and> openedUris (trace (restoreSessionFromEntry entry h)) = openedUris (trace h)"
proof -
  let ?S = "set (map uri (tabs sd))"
  have h1: "h1 = h" using read by (rule readSessionFile_Some)
  have h2: "h2 = h\<lparr>answers := answers h2, trace := trace h @ closeEvents entry ?S pre\<rparr>"
    using reached by (rule closeForeignTabs_True)
  have loop: "closeForeignTabs entry ?S (collectTextTabs h) h =
        (False, showInformationMessage ''Session restore canceled.''
                  (snd (ask (closePrompt entry tab) [''Close Tab'', ''Cancel Restore''] h2)))"
    unfolding cur closeForeignTabs_append reached
    using closeForeignTabs_cancel [OF foreign declined] by simp
  have res: "restoreSessionFromEntry entry h =
         showInformationMessage ''Session restore canceled.''
                  (snd (ask (closePrompt entry tab) [''Close Tab'', ''Cancel Restore''] h2))"
    using read nonempty loop by (simp add: restoreSessionFromEntry_def h1)
  have fin: "showInformationMessage ''Session restore canceled.''
                  (snd (ask (closePrompt entry tab) [''Close Tab'', ''Cancel Restore''] h2)) =
      h\<lparr>answers := tl (answers h2),
             trace := trace h @ closeEvents entry ?S pre @
                [Asked (closePrompt entry tab) [''Close Tab'', ''Cancel Restore'']
                   (case answers h2 of [] \<Rightarrow> None | a # rest \<Rightarrow> a),
                 ShowInformationMessage ''Session restore canceled.'']\<rparr>"
    by (subst (1 2) h2) (simp add: ask_def emit_def showInformationMessage_def split: list.splits)
  have noclose: "CloseAllEditors \<notin> set (closeEvents entry ?S pre)"
    using closeEvents_only by fastforce
  show ?thesis
    unfolding res fin using noclose
    by (simp add: openedUris_append openedUris_closeEvents split: list.splits)
qed

lemma collectTextTabs_projectHost:
  "collectTextTabs (projectHost\<lparr>answers := a\<rparr>) =
     [(textTab ''x.ts'' ''/w/x.ts'' False, fileUri ''/w/x.ts'', xyGroup, 0, 0),
      (textTab ''y.ts'' ''/w/y.ts'' True, fileUri ''/w/y.ts'', xyGroup, 0, 1)]"
  by (simp add: collectTextTabs_def collectGroup_def projectHost_def idleHost_def xyGroup_def
        List.map_filter_def getTabUri_def textTab_def fileUri_def)

lemma readSessionFile_projectHost:
  "readSessionFile (fullPath workEntry) (projectHost\<lparr>answers := a\<rparr>) =
     (Some \<lparr>version = 2, tabs = [savedTab ''/w/a.ts'' 0 0 True True]\<rparr>,
      projectHost\<lparr>answers := a\<rparr>)"
  by (simp add: readSessionFile_def readFile_def lookupProperty_def projectHost_def idleHost_def
        workEntry_def sessionJson_def)

theorem restore_cancel_witness:
  "trace (restoreSessionFromEntry workEntry
            (projectHost\<lparr>answers := [Some ''Close Tab'', Some ''Cancel Restore'']\<rparr>)) =
     [Asked (closePrompt workEntry (textTab ''x.ts'' ''/w/x.ts'' False))
        [''Close Tab'', ''Cancel Restore''] (Some ''Close Tab''),
      CloseTab 0 0,
      Asked (closePrompt workEntry (textTab ''y.ts'' ''/w/y.ts'' True))
        [''Close Tab'', ''Cancel Restore''] (Some ''Cancel Restore''),
      ShowInformationMessage ''Session restore canceled.'']"
  using restore_cancel
    [where entry = workEntry
       and h = "projectHost\<lparr>answers := [Some ''Close Tab'', Some ''Cancel Restore'']\<rparr>"
       and sd = "\<lparr>version = 2, tabs = [savedTab ''/w/a.ts'' 0 0 True True]\<rparr>"
       and ?h1.0 = "projectHost\<lparr>answers := [Some ''Close Tab'', Some ''Cancel Restore'']\<rparr>"
       and pre = "[(textTab ''x.ts'' ''/w/x.ts'' False, fileUri ''/w/x.ts'', xyGroup, 0, 0)]"
       and tab = "textTab ''y.ts'' ''/w/y.ts'' True"
       and u = "fileUri ''/w/y.ts''"
       and g = xyGroup
       and gi = 0 and ti = 1 and post = "[]"
       and ?h2.0 = "projectHost\<lparr>answers := [Some ''Cancel Restore''],
                      trace := [Asked (closePrompt workEntry (textTab ''x.ts'' ''/w/x.ts'' False))
                                  [''Close Tab'', ''Cancel Restore''] (Some ''Close Tab''),
                                CloseTab 0 0]\<rparr>"]
  by (simp add: collectTextTabs_projectHost readSessionFile_projectHost)
     (simp add: projectHost_def idleHost_def savedTab_def fileUri_def ask_def emit_def
        closeEvents_def)

subsection \<open>The focused tab\<close>

lemma collectGroup_member:
  "(tab, u, g', gi', ti) \<in> set (collectGroup gi g) \<Longrightarrow>
     gi' = gi \<and> g' = g \<and> ti < length (TabGroup.tabs g) \<and> tab = TabGroup.tabs g ! ti
     \<and> getTabUri tab = Some u \<and> scheme u = ''file''"
  by (auto simp: collectGroup_def List.map_filter_def in_set_enumerate_eq
           split: option.splits if_splits)

lemma collectGroup_positions:
  "distinct (map (\<lambda>(tab, u, g, gi, ti). (gi, ti)) (collectGroup gi g))"
proof -
  let ?f = "\<lambda>(ti, tab). case getTabUri tab of
                None \<Rightarrow> None
              | Some u \<Rightarrow> if scheme u = ''file'' then Some (tab, u, g, gi, ti) else None"
  let ?kept = "filter (\<lambda>x. ?f x \<noteq> None) (enumerate 0 (TabGroup.tabs g))"
  have "map (\<lambda>(tab, u, g, gi, ti). (gi, ti)) (collectGroup gi g) = map (\<lambda>x. (gi, fst x)) ?kept"
    by (auto simp: collectGroup_def List.map_filter_def split: option.splits)
  moreover have "distinct (map fst ?kept)"
    by (rule distinct_map_filter) simp
  then have "distinct (map (\<lambda>x. (gi, fst x)) ?kept)"
    by (simp add: distinct_map inj_on_def)
  ultimately show ?thesis by simp
qed

lemma collectGroups_positions:
  "distinct (map (\<lambda>(tab, u, g, gi, ti). (gi, ti))
       (concat (map (\<lambda>(gi, g). collectGroup gi g) (enumerate n gs))))
   \<and> (\<forall>x \<in> set (concat (map (\<lambda>(gi, g). collectGroup gi g) (enumerate n gs))).
         n \<le> fst ((\<lambda>(tab, u, g, gi, ti). (gi, ti)) x))"
proof (induction gs arbitrary: n)
  case Nil
  show ?case by simp
next
  case (Cons g gs)
  let ?k = "\<lambda>(tab, u, g, gi, ti). (gi, ti)"
  let ?A = "collectGroup n g"
  let ?B = "concat (map (\<lambda>(gi, g). collectGroup gi g) (enumerate (Suc n) gs))"
  have here: "fst (?k x) = n" if "x \<in> set ?A" for x
  proof -
    obtain tab u g' gi ti where xe: "x = (tab, u, g', gi, ti)" by (cases x) auto
    with that collectGroup_member [of tab u g' gi ti n g] show ?thesis by simp
  qed
  have later: "Suc n \<le> fst (?k x)" if "x \<in> set ?B" for x
    using Cons.IH [of "Suc n"] that by blast
  have dB: "distinct (map ?k ?B)"
    using Cons.IH [of "Suc n"] by blast
  have dA: "distinct (map ?k ?A)" by (rule collectGroup_positions)
  have disj: "set (map ?k ?A) \<inter> set (map ?k ?B) = {}"
  proof (rule ccontr)
    assume "set (map ?k ?A) \<inter> set (map ?k ?B) \<noteq> {}"
    then obtain p where p: "p \<in> ?k ` set ?A" "p \<in> ?k ` set ?B"
      unfolding set_map by blast
    from p(1) obtain a where a: "a \<in> set ?A" "p = ?k a" by (rule imageE)
    from p(2) obtain b where b: "b \<in> set ?B" "p = ?k b" by (rule imageE)
    from here [OF a(1)] later [OF b(1)] a(2) b(2) show False by simp
  qed
  have split: "concat (map (\<lambda>(gi, g). collectGroup gi g) (enumerate n (g # gs))) = ?A @ ?B"
    by simp
  have "distinct (map ?k (?A @ ?B))"
    using dA dB disj by simp
  moreover have "\<forall>x \<in> set (?A @ ?B). n \<le> fst (?k x)"
  proof
    fix x assume "x \<in> set (?A @ ?B)"
    then consider "x \<in> set ?A" | "x \<in> set ?B" by auto
    then show "n \<le> fst (?k x)"
    proof cases
      case 1 then show ?thesis using here by simp
    next
      case 2 then show ?thesis using later [of x] by simp
    qed
  qed
  ultimately show ?case unfolding split by blast
qed

lemma collectTextTabs_positions:
  "distinct (map (\<lambda>(tab, u, g, gi, ti). (gi, ti)) (collectTextTabs h))"
  unfolding collectTextTabs_def using collectGroups_positions [of 0 "tabGroups h"] by blast

lemma collectTextTabs_member:
  assumes "(tab, u, g, gi, ti) \<in> set (collectTextTabs h)"
  shows "gi < length (tabGroups h) \<and> g = tabGroups h ! gi
         \<and> ti < length (TabGroup.tabs g) \<and> tab = TabGroup.tabs g ! ti
         \<and> getTabUri tab = Some u \<and> scheme u = ''file''"
proof -
  from assms obtain gi' g' where
    m: "(gi', g') \<in> set (enumerate 0 (tabGroups h))" "(tab, u, g, gi, ti) \<in> set (collectGroup gi' g')"
    by (auto simp: collectTextTabs_def)
  from m(2) have "gi = gi'" "g = g'" using collectGroup_member by blast+
  with m collectGroup_member [OF m(2)] show ?thesis
    by (auto simp: in_set_enumerate_eq)
qed

lemma filter_at_most_one:
  assumes "distinct (map k xs)" and "\<And>x. x \<in> set xs \<Longrightarrow> Q x \<Longrightarrow> k x = c"
  shows "length (filter Q xs) \<le> 1"
  using assms
proof (induction xs)
  case Nil
  show ?case by simp
next
  case (Cons x xs)
  show ?case
  proof (cases "Q x")
    case False
    with Cons show ?thesis by simp
  next
    case True
    then have kx: "k x = c" using Cons.prems(2) by simp
    have "filter Q xs = []"
    proof (rule ccontr)
      assume "filter Q xs \<noteq> []"
      then obtain y where y: "y \<in> set xs" "Q y" by (auto simp: filter_empty_conv)
      then have "k y = c" using Cons.prems(2) by simp
      with kx y(1) Cons.prems(1) show False by (metis distinct.simps(2) image_eqI list.simps(9) set_map)
    qed
    with True show ?thesis by simp
  qed
qed

lemma snapshot_at_most_one:
  "length (filter isGlobalActive (tabs (createSessionSnapshot h))) \<le> 1"
proof (cases "activeTabGroup h")
  case None
  then show ?thesis by (simp add: createSessionSnapshot_def filter_map o_def split_def)
next
  case (Some ag)
  let ?Q = "\<lambda>(tab, u, g, gi, ti). activeTabGroup h = Some gi \<and> activeTab g = Some ti"
  have flt: "filter isGlobalActive (tabs (createSessionSnapshot h)) =
        map (\<lambda>(tab, u, g, gi, ti).
                \<lparr>uri = toString u, groupIndex = int gi, tabIndex = int ti,
                 viewColumn = Some (TabGroup.viewColumn g), isGroupActive = isActive tab,
                 isGlobalActive = (activeTabGroup h = Some gi \<and> activeTab g = Some ti),
                 cursor = lastKnownCursorPositions h (toString u)\<rparr>)
            (filter ?Q (collectTextTabs h))"
    by (simp add: createSessionSnapshot_def filter_map o_def split_def)
  have "length (filter ?Q (collectTextTabs h)) \<le> 1"
  proof (rule filter_at_most_one [where k = "\<lambda>(tab, u, g, gi, ti). (gi, ti)"
                                     and c = "(ag, the (activeTab (tabGroups h ! ag)))"])
    show "distinct (map (\<lambda>(tab, u, g, gi, ti). (gi, ti)) (collectTextTabs h))"
      by (rule collectTextTabs_positions)
  next
    fix x assume x: "x \<in> set (collectTextTabs h)" "?Q x"
    obtain tab u g gi ti where xe: "x = (tab, u, g, gi, ti)" by (cases x) auto
    from x xe collectTextTabs_member [of tab u g gi ti h] Some
    show "(case x of (tab, u, g, gi, ti) \<Rightarrow> (gi, ti)) = (ag, the (activeTab (tabGroups h ! ag)))"
      by auto
  qed
  then show ?thesis unfolding flt by simp
qed

lemma snapshot_marks_active:
  assumes "t \<in> set (tabs (createSessionSnapshot h))"
  shows "isGlobalActive t =
           (\<exists>gi ti. groupIndex t = int gi \<and> tabIndex t = int ti \<and> gi < length (tabGroups h)
                    \<and> activeTabGroup h = Some gi \<and> activeTab (tabGroups h ! gi) = Some ti)"
proof -
  from assms obtain tab u g gi ti where
    m: "(tab, u, g, gi, ti) \<in> set (collectTextTabs h)"
    and t: "t = \<lparr>uri = toString u, groupIndex = int gi, tabIndex = int ti,
                 viewColumn = Some (TabGroup.viewColumn g), isGroupActive = isActive tab,
                 isGlobalActive = (activeTabGroup h = Some gi \<and> activeTab g = Some ti),
                 cursor = lastKnownCursorPositions h (toString u)\<rparr>"
    by (auto simp: createSessionSnapshot_def)
  from collectTextTabs_member [OF m] have g: "gi < length (tabGroups h)" "g = tabGroups h ! gi"
    by simp_all
  show ?thesis unfolding t using g by auto
qed

lemma focusRequests_closeEvents: "focusRequests (closeEvents e S cur) = []"
  by (induction cur) (auto simp: closeEvents_def)

lemma refocus_focusRequests:
  "focusRequests (trace (refocus ga h)) =
     focusRequests (trace h) @
       (case ga of None \<Rightarrow> []
        | Some t \<Rightarrow> if canOpen h (uri t) then [(uri t, viewColumn t)] else [])"
proof (cases ga)
  case None
  then show ?thesis by (simp add: refocus_def)
next
  case (Some t)
  obtain ok h' where oa: "openAndShow t False h = (ok, h')" by (cases "openAndShow t False h")
  have "focusRequests (trace h') =
          focusRequests (trace h) @ (if canOpen h (uri t) then [(uri t, viewColumn t)] else [])"
    using openAndShow_focusRequests [of t False h] oa by simp
  then show ?thesis using Some oa
    by (cases ok) (simp_all add: refocus_def focusRequests_append)
qed

lemma closeForeignTabs_canOpen:
  "closeForeignTabs e S cur h = (True, h2) \<Longrightarrow> canOpen h2 = canOpen h"
  by (subst closeForeignTabs_True [of e S cur h h2]) simp_all

lemma collectGroup_intro:
  assumes "ti < length (TabGroup.tabs g)" and "getTabUri (TabGroup.tabs g ! ti) = Some u"
    and "scheme u = ''file''"
  shows "(TabGroup.tabs g ! ti, u, g, gi, ti) \<in> set (collectGroup gi g)"
proof -
  let ?f = "\<lambda>(ti, tab). case getTabUri tab of
                None \<Rightarrow> None
              | Some u \<Rightarrow> if scheme u = ''file'' then Some (tab, u, g, gi, ti) else None"
  have m: "(ti, TabGroup.tabs g ! ti) \<in> set (enumerate 0 (TabGroup.tabs g))"
    using assms(1) by (simp add: in_set_enumerate_eq)
  have v: "?f (ti, TabGroup.tabs g ! ti) = Some (TabGroup.tabs g ! ti, u, g, gi, ti)"
    using assms(2,3) by simp
  have "the (?f (ti, TabGroup.tabs g ! ti))
          \<in> (\<lambda>x. the (?f x)) ` {x \<in> set (enumerate 0 (TabGroup.tabs g)). ?f x \<noteq> None}"
    using m v by (intro imageI) simp
  then show ?thesis
    unfolding collectGroup_def List.map_filter_def using v by (simp add: o_def)
qed

lemma collectTextTabs_intro:
  assumes "gi < length (tabGroups h)" and "ti < length (TabGroup.tabs (tabGroups h ! gi))"
    and "getTabUri (TabGroup.tabs (tabGroups h ! gi) ! ti) = Some u" and "scheme u = ''file''"
  shows "(TabGroup.tabs (tabGroups h ! gi) ! ti, u, tabGroups h ! gi, gi, ti)
           \<in> set (collectTextTabs h)"
proof -
  have "(gi, tabGroups h ! gi) \<in> set (enumerate 0 (tabGroups h))"
    using assms(1) by (simp add: in_set_enumerate_eq)
  moreover have "(TabGroup.tabs (tabGroups h ! gi) ! ti, u, tabGroups h ! gi, gi, ti)
                   \<in> set (collectGroup gi (tabGroups h ! gi))"
    using assms(2-4) by (rule collectGroup_intro)
  ultimately show ?thesis
    unfolding collectTextTabs_def set_concat set_map by blast
qed

lemma singleton_filter:
  assumes "length (filter P xs) \<le> 1" and "x \<in> set xs" and "P x"
  shows "filter P xs = [x]"
proof -
  from assms(2,3) have m: "x \<in> set (filter P xs)" by simp
  then obtain y ys where c: "filter P xs = y # ys" by (cases "filter P xs") auto
  with assms(1) have "ys = []" by simp
  with c m show ?thesis by simp
qed

lemma snapshot_marks_the_active_tab:
  assumes "activeTabGroup h = Some gi" and "gi < length (tabGroups h)"
    and "activeTab (tabGroups h ! gi) = Some ti"
    and "ti < length (TabGroup.tabs (tabGroups h ! gi))"
    and "getTabUri (TabGroup.tabs (tabGroups h ! gi) ! ti) = Some u"
    and "scheme u = ''file''"
  shows "filter isGlobalActive (tabs (createSessionSnapshot h)) =
           [\<lparr>uri = toString u, groupIndex = int gi, tabIndex = int ti,
             viewColumn = Some (TabGroup.viewColumn (tabGroups h ! gi)),
             isGroupActive = isActive (TabGroup.tabs (tabGroups h ! gi) ! ti),
             isGlobalActive = True,
             cursor = lastKnownCursorPositions h (toString u)\<rparr>]"
proof (rule singleton_filter)
  show "length (filter isGlobalActive (tabs (createSessionSnapshot h))) \<le> 1"
    by (rule snapshot_at_most_one)
  let ?mk = "\<lambda>(tab, u, g, gi, ti).
                \<lparr>uri = toString u, groupIndex = int gi, tabIndex = int ti,
                 viewColumn = Some (TabGroup.viewColumn g), isGroupActive = isActive tab,
                 isGlobalActive = (activeTabGroup h = Some gi \<and> activeTab g = Some ti),
                 cursor = lastKnownCursorPositions h (toString u)\<rparr>"
  have "?mk (TabGroup.tabs (tabGroups h ! gi) ! ti, u, tabGroups h ! gi, gi, ti)
          \<in> ?mk ` set (collectTextTabs h)"
    using collectTextTabs_intro [OF assms(2,4,5,6)] by (rule imageI)
  then show "\<lparr>uri = toString u, groupIndex = int gi, tabIndex = int ti,
             viewColumn = Some (TabGroup.viewColumn (tabGroups h ! gi)),
             isGroupActive = isActive (TabGroup.tabs (tabGroups h ! gi) ! ti),
             isGlobalActive = True,
             cursor = lastKnownCursorPositions h (toString u)\<rparr>
          \<in> set (tabs (createSessionSnapshot h))"
    using assms(1,3) by (simp add: createSessionSnapshot_def)
  show "isGlobalActive \<lparr>uri = toString u, groupIndex = int gi, tabIndex = int ti,
             viewColumn = Some (TabGroup.viewColumn (tabGroups h ! gi)),
             isGroupActive = isActive (TabGroup.tabs (tabGroups h ! gi) ! ti),
             isGlobalActive = True,
             cursor = lastKnownCursorPositions h (toString u)\<rparr>"
    by simp
qed

text \<open>
  C7. A snapshot marks at most one descriptor as the window's focused tab, and marks a
  descriptor exactly when its tab is the active tab of the active group; when that tab is a
  file-backed text tab, the snapshot has a descriptor for it, and it is the one marked
  descriptor. In a restore the
  variable \<^verbatim>\<open>globalActive\<close> ends as the last marked descriptor of the replay order, whatever
  their number; the last document that a restore which is not cancelled asks the host to
  open is that descriptor's, and the restore makes exactly one focus-taking request, for
  that descriptor and in its recorded column, as soon as the host can open the document
  (a failure there is logged and no focus is requested).
\<close>

theorem global_active_tab:
  "length (filter isGlobalActive (tabs (createSessionSnapshot h))) \<le> 1
   \<and> (\<forall>t \<in> set (tabs (createSessionSnapshot h)).
         isGlobalActive t =
           (\<exists>gi ti. groupIndex t = int gi \<and> tabIndex t = int ti \<and> gi < length (tabGroups h)
                    \<and> activeTabGroup h = Some gi \<and> activeTab (tabGroups h ! gi) = Some ti))
   \<and> (activeTabGroup h = Some agi \<longrightarrow> agi < length (tabGroups h) \<longrightarrow>
      activeTab (tabGroups h ! agi) = Some ati \<longrightarrow>
      ati < length (TabGroup.tabs (tabGroups h ! agi)) \<longrightarrow>
      getTabUri (TabGroup.tabs (tabGroups h ! agi) ! ati) = Some au \<longrightarrow>
      scheme au = ''file'' \<longrightarrow>
        filter isGlobalActive (tabs (createSessionSnapshot h)) =
          [\<lparr>uri = toString au, groupIndex = int agi, tabIndex = int ati,
            viewColumn = Some (TabGroup.viewColumn (tabGroups h ! agi)),
            isGroupActive = isActive (TabGroup.tabs (tabGroups h ! agi) ! ati),
            isGlobalActive = True,
            cursor = lastKnownCursorPositions h (toString au)\<rparr>])
   \<and> fst (replayTabs ts None h) =
        (if filter isGlobalActive ts = [] then None else Some (last (filter isGlobalActive ts)))
   \<and> (readSessionFile (fullPath entry) h = (Some sd, h1) \<longrightarrow> tabs sd \<noteq> [] \<longrightarrow>
      closeForeignTabs entry (set (map uri (tabs sd))) (collectTextTabs h) h = (True, h2) \<longrightarrow>
      filter isGlobalActive (tabs sd) \<noteq> [] \<longrightarrow>
        focusRequests (trace (restoreSessionFromEntry entry h))
          = focusRequests (trace h) @
              (if canOpen h (uri (last (filter isGlobalActive (sortedTabs (tabs sd)))))
               then [(uri (last (filter isGlobalActive (sortedTabs (tabs sd)))),
                      viewColumn (last (filter isGlobalActive (sortedTabs (tabs sd)))))]
               else [])
        \<and> last (openedUris (trace (restoreSessionFromEntry entry h)))
            = uri (last (filter isGlobalActive (sortedTabs (tabs sd)))))"
proof (intro conjI impI ballI)
  show "length (filter isGlobalActive (tabs (createSessionSnapshot h))) \<le> 1"
    by (rule snapshot_at_most_one)
  show "fst (replayTabs ts None h) =
        (if filter isGlobalActive ts = [] then None else Some (last (filter isGlobalActive ts)))"
    by (rule replayTabs_fst)
next
  fix t assume "t \<in> set (tabs (createSessionSnapshot h))"
  then show "isGlobalActive t =
           (\<exists>gi ti. groupIndex t = int gi \<and> tabIndex t = int ti \<and> gi < length (tabGroups h)
                    \<and> activeTabGroup h = Some gi \<and> activeTab (tabGroups h ! gi) = Some ti)"
    by (rule snapshot_marks_active)
next
  assume "activeTabGroup h = Some agi" "agi < length (tabGroups h)"
    "activeTab (tabGroups h ! agi) = Some ati"
    "ati < length (TabGroup.tabs (tabGroups h ! agi))"
    "getTabUri (TabGroup.tabs (tabGroups h ! agi) ! ati) = Some au"
    "scheme au = ''file''"
  then show "filter isGlobalActive (tabs (createSessionSnapshot h)) =
          [\<lparr>uri = toString au, groupIndex = int agi, tabIndex = int ati,
            viewColumn = Some (TabGroup.viewColumn (tabGroups h ! agi)),
            isGroupActive = isActive (TabGroup.tabs (tabGroups h ! agi) ! ati),
            isGlobalActive = True,
            cursor = lastKnownCursorPositions h (toString au)\<rparr>]"
    by (rule snapshot_marks_the_active_tab)
next
  assume a: "readSessionFile (fullPath entry) h = (Some sd, h1)" "tabs sd \<noteq> []"
    "closeForeignTabs entry (set (map uri (tabs sd))) (collectTextTabs h) h = (True, h2)"
    and marked: "filter isGlobalActive (tabs sd) \<noteq> []"
  let ?sorted = "sortedTabs (tabs sd)"
  have "trace h2 = trace h @ closeEvents entry (set (map uri (tabs sd))) (collectTextTabs h)"
    by (subst closeForeignTabs_True [OF a(3)]) simp
  then have h2: "focusRequests (trace h2) = focusRequests (trace h)"
    by (simp add: focusRequests_append focusRequests_closeEvents)
  have co: "canOpen (snd (replayTabs ?sorted None (emit CloseAllEditors h2))) = canOpen h"
    by (simp add: replayTabs_canOpen closeForeignTabs_canOpen [OF a(3)])
  have f: "filter isGlobalActive ?sorted \<noteq> []"
    using marked by (simp add: sortedTabs_sort_key filter_empty_conv)
  show "focusRequests (trace (restoreSessionFromEntry entry h))
          = focusRequests (trace h) @
              (if canOpen h (uri (last (filter isGlobalActive ?sorted)))
               then [(uri (last (filter isGlobalActive ?sorted)),
                      viewColumn (last (filter isGlobalActive ?sorted)))]
               else [])"
    unfolding restore_proceeds [OF a]
    by (simp add: focusRequests_append refocus_focusRequests replayTabs_focusRequests
          replayTabs_fst h2 f co)
  show "last (openedUris (trace (restoreSessionFromEntry entry h)))
          = uri (last (filter isGlobalActive ?sorted))"
    unfolding restore_proceeds [OF a]
    by (simp add: openedUris_append refocus_openedUris replayTabs_fst f)
qed

theorem global_active_tab_witness:
  "tabs (createSessionSnapshot projectHost) =
     [\<lparr>uri = ''file:///w/x.ts'', groupIndex = 0, tabIndex = 0, viewColumn = Some 1,
       isGroupActive = False, isGlobalActive = False, cursor = None\<rparr>,
      \<lparr>uri = ''file:///w/y.ts'', groupIndex = 0, tabIndex = 1, viewColumn = Some 1,
       isGroupActive = True, isGlobalActive = True, cursor = None\<rparr>]
   \<and> filter isGlobalActive (tabs (createSessionSnapshot projectHost)) =
     [\<lparr>uri = ''file:///w/y.ts'', groupIndex = 0, tabIndex = 1, viewColumn = Some 1,
       isGroupActive = True, isGlobalActive = True, cursor = None\<rparr>]
   \<and> focusRequests (trace (restoreSessionFromEntry workEntry orderHost)) =
     [(''file:///w/one.ts'', Some 1)]"
proof -
  have all: "tabs (createSessionSnapshot projectHost) =
     [\<lparr>uri = ''file:///w/x.ts'', groupIndex = 0, tabIndex = 0, viewColumn = Some 1,
       isGroupActive = False, isGlobalActive = False, cursor = None\<rparr>,
      \<lparr>uri = ''file:///w/y.ts'', groupIndex = 0, tabIndex = 1, viewColumn = Some 1,
       isGroupActive = True, isGlobalActive = True, cursor = None\<rparr>]"
    using collectTextTabs_projectHost [of "[]"]
    by (simp add: createSessionSnapshot_def projectHost_def idleHost_def xyGroup_def
          textTab_def fileUri_def)
  have marked: "filter isGlobalActive (tabs (createSessionSnapshot projectHost)) =
     [\<lparr>uri = ''file:///w/y.ts'', groupIndex = 0, tabIndex = 1, viewColumn = Some 1,
       isGroupActive = True, isGlobalActive = True, cursor = None\<rparr>]"
    using global_active_tab
      [where h = projectHost and agi = 0 and ati = 1 and au = "fileUri ''/w/y.ts''",
       THEN conjunct2, THEN conjunct2, THEN conjunct1]
    by (simp add: projectHost_def idleHost_def xyGroup_def textTab_def fileUri_def
          getTabUri_def)
  note focus = global_active_tab
    [where entry = workEntry and h = orderHost and sd = "\<lparr>version = 2, tabs = threeTabs\<rparr>"
       and ?h1.0 = orderHost and ?h2.0 = orderHost,
     THEN conjunct2, THEN conjunct2, THEN conjunct2, THEN conjunct2]
  have sorted3: "sortedTabs threeTabs =
      [savedTab ''/w/zero.ts'' 0 0 False True, savedTab ''/w/one.ts'' 0 1 False True,
       savedTab ''/w/act.ts'' 0 0 True False]"
    by (simp add: threeTabs_def savedTab_def sortedTabs_def sortBy_def compareTabs_def)
  have ne: "threeTabs \<noteq> []" "filter isGlobalActive threeTabs \<noteq> []"
    by (simp_all add: threeTabs_def savedTab_def)
  have "focusRequests (trace (restoreSessionFromEntry workEntry orderHost)) =
          focusRequests (trace orderHost) @
              (if canOpen orderHost (uri (last (filter isGlobalActive (sortedTabs threeTabs))))
               then [(uri (last (filter isGlobalActive (sortedTabs threeTabs))),
                      viewColumn (last (filter isGlobalActive (sortedTabs threeTabs))))]
               else [])"
    using focus by (simp add: readSessionFile_orderHost collectTextTabs_orderHost ne)
  then have "focusRequests (trace (restoreSessionFromEntry workEntry orderHost)) =
     [(''file:///w/one.ts'', Some 1)]"
    unfolding sorted3 by (simp add: savedTab_def orderHost_def idleHost_def)
  with all marked show ?thesis by simp
qed

subsection \<open>Listing the stored sessions\<close>

lemma localeCompare_le: "(localeCompare k a b \<le> 0) = (k a \<le> k b)"
  by (auto simp: localeCompare_def)

lemma childName_Some:
  assumes "childName dir p = Some f"
  shows "p = pathJoin dir f \<and> f \<noteq> [] \<and> CHR ''/'' \<notin> set f"
proof -
  let ?n = "length dir + 1"
  from assms have c: "take ?n p = dir @ ''/'' \<and> drop ?n p \<noteq> [] \<and> CHR ''/'' \<notin> set (drop ?n p)"
    unfolding childName_def Let_def by (metis option.distinct(1))
  with assms have f: "f = drop ?n p"
    unfolding childName_def Let_def by (metis option.inject)
  have "p = take ?n p @ drop ?n p" by (rule append_take_drop_id [symmetric])
  with c f have "p = (dir @ ''/'') @ f" by metis
  then show ?thesis using c f unfolding pathJoin_def by (metis append_assoc)
qed

lemma readdir_names:
  assumes "readdir h dir = Inr fileNames" and "f \<in> set fileNames"
  shows "f \<noteq> [] \<and> CHR ''/'' \<notin> set f \<and> map_of (files h) (pathJoin dir f) \<noteq> None"
proof -
  from assms obtain p n where pn: "(p, n) \<in> set (files h)" "childName dir p = Some f"
    by (auto simp: readdir_def List.map_filter_def split: option.splits node.splits)
  from childName_Some [OF pn(2)] pn(1) show ?thesis
    by (auto simp: map_of_eq_None_iff intro: rev_image_eqI)
qed

lemma basename_plain:
  assumes "CHR ''/'' \<notin> set f" and "endsWith f ext" and "ext \<noteq> []"
  shows "basename f ext = take (length f - length ext) f"
proof -
  have tw: "takeWhile (\<lambda>c. c \<noteq> CHR ''/'') (rev f) = rev f"
    unfolding takeWhile_eq_all_conv using assms(1) by auto
  have comp: "rev (takeWhile (\<lambda>c. c \<noteq> CHR ''/'') (rev f)) = f"
    by (subst tw) (rule rev_rev_ident)
  show ?thesis
  proof (cases "f = ext")
    case True
    then show ?thesis using assms(3) by (simp add: basename_def)
  next
    case False
    with assms(2) have "length ext < length f"
      by (auto simp: endsWith_def le_less)
    with False assms show ?thesis by (simp add: basename_def comp Let_def)
  qed
qed

lemma endsWith_decompose: "endsWith f ext \<Longrightarrow> take (length f - length ext) f @ ext = f"
  by (metis append_take_drop_id endsWith_def)

lemma sessionRecords_sort_key:
  "sessionRecords k folder fileNames =
     sort_key (\<lambda>e. k (name e))
       (map (\<lambda>file. \<lparr>name = basename file ''.json'', fullPath = pathJoin folder file\<rparr>)
          (filter (\<lambda>file. endsWith file ''.json'') fileNames))"
  unfolding sessionRecords_def by (rule sortBy_sort_key) (rule localeCompare_le)

lemma sessionRecords_member:
  assumes "e \<in> set (sessionRecords k folder fileNames)"
  shows "\<exists>file \<in> set fileNames. endsWith file ''.json''
            \<and> name e = basename file ''.json'' \<and> fullPath e = pathJoin folder file"
  using assms by (auto simp: sessionRecords_sort_key)

text \<open>
  C9. \<^verbatim>\<open>listSessions\<close> returns the empty list, and no error, when no directory is resolved and
  when the resolved directory does not exist. When the resolved directory can be read, it
  returns one record for each entry whose name ends in \<^verbatim>\<open>.json\<close> and for no other: the
  record's name is the entry's name without these five characters, its path the entry's
  path; the records are sorted, stably, by the host's base-sensitivity collation key of the
  name, under which letters differing only in case are equal.
\<close>

theorem listSessions_listing:
  "(resolveSessionDirectory options h = (Inr None, h1) \<longrightarrow>
      listSessions k options h = (Inr ([], None), h1))
   \<and> (resolveSessionDirectory options h = (Inr (Some folder), h1) \<longrightarrow>
      \<not> existsSync h1 folder \<longrightarrow>
      listSessions k options h = (Inr ([], Some folder), h1))
   \<and> (resolveSessionDirectory options h = (Inr (Some folder), h1) \<longrightarrow>
      readdir h1 folder = Inr fileNames \<longrightarrow>
        listSessions k options h = (Inr (sessionRecords k folder fileNames, Some folder), h1)
        \<and> sessionRecords k folder fileNames =
            sort_key (\<lambda>e. k (name e))
              (map (\<lambda>file. \<lparr>name = take (length file - 5) file,
                            fullPath = pathJoin folder file\<rparr>)
                 (filter (\<lambda>file. endsWith file ''.json'') fileNames))
        \<and> sorted (map (\<lambda>e. k (name e)) (sessionRecords k folder fileNames))
        \<and> (\<forall>e \<in> set (sessionRecords k folder fileNames).
              \<exists>file \<in> set fileNames. endsWith file ''.json''
                \<and> name e @ ''.json'' = file \<and> fullPath e = pathJoin folder file)
        \<and> (\<forall>file \<in> set fileNames. endsWith file ''.json'' \<longrightarrow>
              \<lparr>name = take (length file - 5) file, fullPath = pathJoin folder file\<rparr>
                \<in> set (sessionRecords k folder fileNames)))"
proof (intro conjI impI)
  assume "resolveSessionDirectory options h = (Inr None, h1)"
  then show "listSessions k options h = (Inr ([], None), h1)"
    by (simp add: listSessions_def)
next
  assume "resolveSessionDirectory options h = (Inr (Some folder), h1)" "\<not> existsSync h1 folder"
  then show "listSessions k options h = (Inr ([], Some folder), h1)"
    by (simp add: listSessions_def)
next
  assume r: "resolveSessionDirectory options h = (Inr (Some folder), h1)"
    and d: "readdir h1 folder = Inr fileNames"
  have ex: "existsSync h1 folder"
    using d by (auto simp: readdir_def existsSync_def split: option.splits)
  show "listSessions k options h = (Inr (sessionRecords k folder fileNames, Some folder), h1)"
    using r d ex by (simp add: listSessions_def)
  have strip: "basename f ''.json'' = take (length f - 5) f"
    if "f \<in> set fileNames" "endsWith f ''.json''" for f
    using basename_plain [of f "''.json''"] readdir_names [OF d that(1)] that(2)
    by (simp add: eval_nat_numeral)
  have same: "map (\<lambda>file. \<lparr>name = basename file ''.json'', fullPath = pathJoin folder file\<rparr>)
                (filter (\<lambda>file. endsWith file ''.json'') fileNames)
            = map (\<lambda>file. \<lparr>name = take (length file - 5) file, fullPath = pathJoin folder file\<rparr>)
                (filter (\<lambda>file. endsWith file ''.json'') fileNames)"
    by (rule map_cong) (simp_all add: strip)
  show eq: "sessionRecords k folder fileNames =
            sort_key (\<lambda>e. k (name e))
              (map (\<lambda>file. \<lparr>name = take (length file - 5) file,
                            fullPath = pathJoin folder file\<rparr>)
                 (filter (\<lambda>file. endsWith file ''.json'') fileNames))"
    unfolding sessionRecords_sort_key same ..
  show "sorted (map (\<lambda>e. k (name e)) (sessionRecords k folder fileNames))"
    unfolding sessionRecords_sort_key by (rule sorted_sort_key)
  show "\<forall>e \<in> set (sessionRecords k folder fileNames).
              \<exists>file \<in> set fileNames. endsWith file ''.json''
                \<and> name e @ ''.json'' = file \<and> fullPath e = pathJoin folder file"
  proof
    fix e assume "e \<in> set (sessionRecords k folder fileNames)"
    then obtain fl where f: "fl \<in> set fileNames" "endsWith fl ''.json''"
      "name e = basename fl ''.json''" "fullPath e = pathJoin folder fl"
      using sessionRecords_member by blast
    have "name e @ ''.json'' = fl"
      using strip [OF f(1,2)] f(3) endsWith_decompose [OF f(2)] by (simp add: eval_nat_numeral)
    with f show "\<exists>file \<in> set fileNames. endsWith file ''.json''
                \<and> name e @ ''.json'' = file \<and> fullPath e = pathJoin folder file"
      by blast
  qed
  show "\<forall>file \<in> set fileNames. endsWith file ''.json'' \<longrightarrow>
              \<lparr>name = take (length file - 5) file, fullPath = pathJoin folder file\<rparr>
                \<in> set (sessionRecords k folder fileNames)"
    unfolding eq by auto
qed

lemma resolve_listingHost:
  "resolveSessionDirectory quietOptions listingHost = (Inr (Some ''/w/.vscode/sessions''), listingHost)"
  by (simp add: resolveSessionDirectory_def quietOptions_def listingHost_def idleHost_def
        resolveWorkspaceBase_def existsSync_def pathJoin_def SESSION_FOLDER_NAME_def Let_def)

lemma readdir_listingHost:
  "readdir listingHost ''/w/.vscode/sessions'' = Inr [''b.json'', ''notes.txt'', ''C.json'', ''a.json'', ''old'']"
  by (simp add: readdir_def listingHost_def idleHost_def List.map_filter_def childName_def)

theorem listSessions_listing_witness:
  "fst (listSessions asciiFold quietOptions listingHost) =
     Inr ([\<lparr>name = ''a'', fullPath = ''/w/.vscode/sessions/a.json''\<rparr>,
           \<lparr>name = ''b'', fullPath = ''/w/.vscode/sessions/b.json''\<rparr>,
           \<lparr>name = ''C'', fullPath = ''/w/.vscode/sessions/C.json''\<rparr>],
          Some ''/w/.vscode/sessions'')"
proof -
  note listing = listSessions_listing
    [where k = asciiFold and options = quietOptions and h = listingHost and ?h1.0 = listingHost
       and folder = "''/w/.vscode/sessions''"
       and fileNames = "[''b.json'', ''notes.txt'', ''C.json'', ''a.json'', ''old'']",
     THEN conjunct2, THEN conjunct2]
  have "listSessions asciiFold quietOptions listingHost =
          (Inr (sort_key (\<lambda>e. asciiFold (name e))
              (map (\<lambda>file. \<lparr>name = take (length file - 5) file,
                            fullPath = pathJoin ''/w/.vscode/sessions'' file\<rparr>)
                 (filter (\<lambda>file. endsWith file ''.json'')
                    [''b.json'', ''notes.txt'', ''C.json'', ''a.json'', ''old''])),
            Some ''/w/.vscode/sessions''), listingHost)"
    using listing by (simp add: resolve_listingHost readdir_listingHost)
  then show ?thesis
    by (simp add: endsWith_def pathJoin_def asciiFold_def)
qed

subsection \<open>Deleting a session\<close>

lemma confirmAndDelete_confirmed:
  assumes "answers h = Some ''Delete'' # rest"
  shows "confirmAndDelete entry h =
    (case (if existsSync h (fullPath entry)
           then unlink (fullPath entry)
                  (h\<lparr>answers := rest,
                     trace := trace h @ [Asked (''Delete session '' @ quoted (name entry) @ ''?'')
                                           [''Delete''] (Some ''Delete'')]\<rparr>)
           else (Inr (), h\<lparr>answers := rest,
                   trace := trace h @ [Asked (''Delete session '' @ quoted (name entry) @ ''?'')
                                         [''Delete''] (Some ''Delete'')]\<rparr>)) of
       (Inl err, h2) \<Rightarrow> (Inl err, h2)
     | (Inr u, h2) \<Rightarrow>
         (Inr (), refresh (showInformationMessage
                             (''Deleted session '' @ quoted (name entry) @ ''.'') h2)))"
  using assms by (simp add: confirmAndDelete_def ask_def emit_def existsSync_def)

text \<open>
  C10. When the file of the chosen entry does not exist at the time the user confirms, the
  delete handler returns normally: it makes no file-system call, tells the user the session
  was deleted and refreshes the sidebar; the host changes only by the answer consumed and
  these three trace entries.
\<close>

theorem delete_missing_file:
  assumes "\<not> existsSync h (fullPath entry)"
    and "answers h = Some ''Delete'' # rest"
  shows "confirmAndDelete entry h =
           (Inr (),
            h\<lparr>answers := rest,
              trace := trace h @
                [Asked (''Delete session '' @ quoted (name entry) @ ''?'') [''Delete'']
                   (Some ''Delete''),
                 ShowInformationMessage (''Deleted session '' @ quoted (name entry) @ ''.''),
                 RefreshTree]\<rparr>)"
  unfolding confirmAndDelete_confirmed [OF assms(2)]
  using assms(1) by (simp add: refresh_def showInformationMessage_def emit_def)

theorem delete_missing_file_witness:
  "fst (confirmAndDelete goneEntry (listingHost\<lparr>answers := [Some ''Delete'']\<rparr>)) = Inr ()
   \<and> files (snd (confirmAndDelete goneEntry (listingHost\<lparr>answers := [Some ''Delete'']\<rparr>)))
       = files listingHost
   \<and> trace (snd (confirmAndDelete goneEntry (listingHost\<lparr>answers := [Some ''Delete'']\<rparr>)))
       = [Asked (''Delete session '' @ quoted ''gone'' @ ''?'') [''Delete''] (Some ''Delete''),
          ShowInformationMessage (''Deleted session '' @ quoted ''gone'' @ ''.''),
          RefreshTree]"
  using delete_missing_file
    [of "listingHost\<lparr>answers := [Some ''Delete'']\<rparr>" goneEntry "[]"]
  by (simp add: existsSync_def listingHost_def idleHost_def goneEntry_def)

lemma map_filter_filter:
  assumes "\<And>x y. x \<in> set xs \<Longrightarrow> f x = Some y \<Longrightarrow> P x = Q y"
  shows "List.map_filter f (filter P xs) = filter Q (List.map_filter f xs)"
  using assms
proof (induction xs)
  case Nil
  show ?case by (simp add: List.map_filter_simps)
next
  case (Cons x xs)
  then have IH: "List.map_filter f (filter P xs) = filter Q (List.map_filter f xs)" by simp
  show ?case
  proof (cases "f x")
    case None
    then show ?thesis using IH by (simp add: List.map_filter_simps)
  next
    case (Some y)
    then have "P x = Q y" using Cons.prems by simp
    then show ?thesis using IH Some by (simp add: List.map_filter_simps)
  qed
qed

lemma pathJoin_inject: "(pathJoin dir a = pathJoin dir b) = (a = b)"
  by (simp add: pathJoin_def)

lemma readdir_after_delete:
  assumes d: "readdir h folder = Inr fileNames"
    and f: "map_of (files h) (pathJoin folder fl) = Some (File c)"
    and h': "files h' = AList.delete (pathJoin folder fl) (files h)"
  shows "readdir h' folder = Inr (filter (\<lambda>f. f \<noteq> fl) fileNames)"
proof -
  from d have dir: "map_of (files h) folder = Some Dir"
    and names: "fileNames = List.map_filter (\<lambda>(p, n). childName folder p) (files h)"
    by (auto simp: readdir_def split: option.splits node.splits)
  from dir f have ne: "folder \<noteq> pathJoin folder fl" by auto
  have dir': "map_of (files h') folder = Some Dir"
    using dir ne by (simp add: h' delete_conv')
  have "List.map_filter (\<lambda>(p, n). childName folder p)
          (filter (\<lambda>(p, n). pathJoin folder fl \<noteq> p) (files h))
        = filter (\<lambda>f. f \<noteq> fl) (List.map_filter (\<lambda>(p, n). childName folder p) (files h))"
  proof (rule map_filter_filter)
    fix x y assume "x \<in> set (files h)" and c: "(case x of (p, n) \<Rightarrow> childName folder p) = Some y"
    obtain p n where x: "x = (p, n)" by (cases x)
    with c have "p = pathJoin folder y" using childName_Some by auto
    then show "(case x of (p, n) \<Rightarrow> pathJoin folder fl \<noteq> p) = (y \<noteq> fl)"
      unfolding x by (auto simp: pathJoin_inject)
  qed
  then show ?thesis
    using dir' by (simp add: readdir_def h' AList.delete_eq names)
qed

lemma sessionRecords_after_delete:
  assumes d: "readdir h folder = Inr fileNames"
    and fl: "fl \<in> set fileNames" "endsWith fl ''.json''"
  shows "sessionRecords k folder (filter (\<lambda>f. f \<noteq> fl) fileNames) =
           filter (\<lambda>e. name e \<noteq> basename fl ''.json'') (sessionRecords k folder fileNames)"
proof -
  let ?mk = "\<lambda>f. \<lparr>name = basename f ''.json'', fullPath = pathJoin folder f\<rparr>"
  let ?json = "\<lambda>f. endsWith f ''.json''"
  have strip: "basename f ''.json'' @ ''.json'' = f" if "f \<in> set fileNames" "endsWith f ''.json''" for f
    using basename_plain [of f "''.json''"] readdir_names [OF d that(1)] that(2)
      endsWith_decompose [OF that(2)] by simp
  have inj: "(basename f ''.json'' \<noteq> basename fl ''.json'') = (f \<noteq> fl)"
    if "f \<in> set fileNames" "endsWith f ''.json''" for f
    using strip [OF that] strip [OF fl] by metis
  have "filter (\<lambda>e. name e \<noteq> basename fl ''.json'') (map ?mk (filter ?json fileNames))
        = map ?mk (filter (\<lambda>f. basename f ''.json'' \<noteq> basename fl ''.json'') (filter ?json fileNames))"
    by (simp add: filter_map o_def)
  also have "filter (\<lambda>f. basename f ''.json'' \<noteq> basename fl ''.json'') (filter ?json fileNames)
        = filter (\<lambda>f. f \<noteq> fl) (filter ?json fileNames)"
    by (rule filter_cong) (auto simp: inj)
  also have "\<dots> = filter ?json (filter (\<lambda>f. f \<noteq> fl) fileNames)"
    by (simp add: conj_commute)
  finally show ?thesis
    by (simp add: sessionRecords_sort_key filter_sort)
qed

text \<open>
  C8. Let the chosen entry be one of the records listed for a directory, its file a regular
  file, and let the user confirm. The handler then returns normally and the file system
  afterwards is the one before without that one path: every other path maps to what it did.
  The directory's entries are the former ones without this file, and the listing of the
  directory is the former listing without the records of the deleted name: that name is
  gone, every other record is still there.
\<close>

theorem delete_removes_exactly:
  assumes "readdir h folder = Inr fileNames"
    and "entry \<in> set (sessionRecords k folder fileNames)"
    and "map_of (files h) (fullPath entry) = Some (File c)"
    and "answers h = Some ''Delete'' # rest"
  shows "fst (confirmAndDelete entry h) = Inr ()
       \<and> files (snd (confirmAndDelete entry h))
           = filter (\<lambda>(p, n). p \<noteq> fullPath entry) (files h)
       \<and> map_of (files (snd (confirmAndDelete entry h)))
           = (map_of (files h))(fullPath entry := None)
       \<and> (\<exists>fl \<in> set fileNames. fullPath entry = pathJoin folder fl
            \<and> readdir (snd (confirmAndDelete entry h)) folder
                = Inr (filter (\<lambda>f. f \<noteq> fl) fileNames)
            \<and> sessionRecords k folder (filter (\<lambda>f. f \<noteq> fl) fileNames)
                = filter (\<lambda>e. name e \<noteq> name entry) (sessionRecords k folder fileNames))"
proof -
  let ?h1 = "h\<lparr>answers := rest,
              trace := trace h @ [Asked (''Delete session '' @ quoted (name entry) @ ''?'')
                                    [''Delete''] (Some ''Delete'')]\<rparr>"
  let ?h2 = "?h1\<lparr>files := AList.delete (fullPath entry) (files h)\<rparr>"
  have ex: "existsSync h (fullPath entry)" using assms(3) by (simp add: existsSync_def)
  have un: "unlink (fullPath entry) ?h1 = (Inr (), ?h2)"
    using assms(3) by (simp add: unlink_def)
  have res: "confirmAndDelete entry h =
      (Inr (), refresh (showInformationMessage (''Deleted session '' @ quoted (name entry) @ ''.'') ?h2))"
    unfolding confirmAndDelete_confirmed [OF assms(4)] using ex un by simp
  have fs: "files (snd (confirmAndDelete entry h)) = AList.delete (fullPath entry) (files h)"
    unfolding res by (simp add: refresh_def showInformationMessage_def)
  from sessionRecords_member [OF assms(2)] obtain fl where
    fl: "fl \<in> set fileNames" "endsWith fl ''.json''" "name entry = basename fl ''.json''"
      "fullPath entry = pathJoin folder fl" by blast
  have rd: "readdir (snd (confirmAndDelete entry h)) folder = Inr (filter (\<lambda>f. f \<noteq> fl) fileNames)"
    using readdir_after_delete [OF assms(1), of fl c] assms(3) fs fl(4) by simp
  have sr: "sessionRecords k folder (filter (\<lambda>f. f \<noteq> fl) fileNames)
                = filter (\<lambda>e. name e \<noteq> name entry) (sessionRecords k folder fileNames)"
    using sessionRecords_after_delete [OF assms(1) fl(1,2)] fl(3) by simp
  have f1: "files (snd (confirmAndDelete entry h)) = filter (\<lambda>(p, n). p \<noteq> fullPath entry) (files h)"
    unfolding fs AList.delete_eq by (rule filter_cong) auto
  have f2: "map_of (files (snd (confirmAndDelete entry h))) = (map_of (files h))(fullPath entry := None)"
    unfolding fs by (rule delete_conv')
  show ?thesis using res f1 f2 fl(1,4) rd sr by auto
qed

lemma sessionRecords_listingHost:
  "sessionRecords asciiFold ''/w/.vscode/sessions''
      [''b.json'', ''notes.txt'', ''C.json'', ''a.json'', ''old''] =
     [\<lparr>name = ''a'', fullPath = ''/w/.vscode/sessions/a.json''\<rparr>,
      bEntry,
      \<lparr>name = ''C'', fullPath = ''/w/.vscode/sessions/C.json''\<rparr>]"
  by (simp add: sessionRecords_def sortBy_def localeCompare_def endsWith_def basename_def
        pathJoin_def asciiFold_def bEntry_def)

theorem delete_removes_exactly_witness:
  "fst (confirmAndDelete bEntry (listingHost\<lparr>answers := [Some ''Delete'']\<rparr>)) = Inr ()
   \<and> files (snd (confirmAndDelete bEntry (listingHost\<lparr>answers := [Some ''Delete'']\<rparr>))) =
       [(''/w'', Dir), (''/w/.vscode'', Dir), (''/w/.vscode/sessions'', Dir),
        (''/w/.vscode/sessions/notes.txt'', File NotJson),
        (''/w/.vscode/sessions/C.json'', File (sessionJson [savedTab ''/w/c.ts'' 0 0 True True])),
        (''/w/.vscode/sessions/a.json'', File (sessionJson [savedTab ''/w/a.ts'' 0 0 True True])),
        (''/w/.vscode/sessions/old'', Dir),
        (''/w/.vscode/sessions/old/z.json'', File NotJson)]
   \<and> fst (listSessions asciiFold quietOptions
             (snd (confirmAndDelete bEntry (listingHost\<lparr>answers := [Some ''Delete'']\<rparr>)))) =
       Inr ([\<lparr>name = ''a'', fullPath = ''/w/.vscode/sessions/a.json''\<rparr>,
             \<lparr>name = ''C'', fullPath = ''/w/.vscode/sessions/C.json''\<rparr>],
            Some ''/w/.vscode/sessions'')
   \<and> fst (deleteSession asciiFold NoArg
             (listingHost\<lparr>answers := [Some ''b'', Some ''Delete'']\<rparr>)) = Inr ()
   \<and> files (snd (deleteSession asciiFold NoArg
             (listingHost\<lparr>answers := [Some ''b'', Some ''Delete'']\<rparr>)))
       = files (snd (confirmAndDelete bEntry (listingHost\<lparr>answers := [Some ''Delete'']\<rparr>)))"
proof -
  let ?h = "listingHost\<lparr>answers := [Some ''Delete'']\<rparr>"
  have rd: "readdir ?h ''/w/.vscode/sessions'' =
              Inr [''b.json'', ''notes.txt'', ''C.json'', ''a.json'', ''old'']"
    by (simp add: readdir_def listingHost_def idleHost_def List.map_filter_def childName_def)
  have regular: "map_of (files ?h) (fullPath bEntry) =
                Some (File (sessionJson [savedTab ''/w/b.ts'' 0 0 True True]))"
    by (simp add: listingHost_def idleHost_def bEntry_def)
  note removed = delete_removes_exactly
    [where h = ?h and folder = "''/w/.vscode/sessions''" and k = asciiFold and entry = bEntry
       and fileNames = "[''b.json'', ''notes.txt'', ''C.json'', ''a.json'', ''old'']"
       and rest = "[]", OF rd _ regular]
  have r: "fst (confirmAndDelete bEntry ?h) = Inr ()
       \<and> files (snd (confirmAndDelete bEntry ?h))
           = filter (\<lambda>(p, n). p \<noteq> fullPath bEntry) (files ?h)"
    using removed by (simp add: sessionRecords_listingHost)
  then have fs: "files (snd (confirmAndDelete bEntry ?h)) =
       [(''/w'', Dir), (''/w/.vscode'', Dir), (''/w/.vscode/sessions'', Dir),
        (''/w/.vscode/sessions/notes.txt'', File NotJson),
        (''/w/.vscode/sessions/C.json'', File (sessionJson [savedTab ''/w/c.ts'' 0 0 True True])),
        (''/w/.vscode/sessions/a.json'', File (sessionJson [savedTab ''/w/a.ts'' 0 0 True True])),
        (''/w/.vscode/sessions/old'', Dir),
        (''/w/.vscode/sessions/old/z.json'', File NotJson)]"
    by (simp add: listingHost_def idleHost_def bEntry_def)
  have after: "fst (listSessions asciiFold quietOptions (snd (confirmAndDelete bEntry ?h))) =
       Inr ([\<lparr>name = ''a'', fullPath = ''/w/.vscode/sessions/a.json''\<rparr>,
             \<lparr>name = ''C'', fullPath = ''/w/.vscode/sessions/C.json''\<rparr>],
            Some ''/w/.vscode/sessions'')"
    by code_simp
  have command: "fst (deleteSession asciiFold NoArg
                        (listingHost\<lparr>answers := [Some ''b'', Some ''Delete'']\<rparr>)) = Inr ()
      \<and> files (snd (deleteSession asciiFold NoArg
                        (listingHost\<lparr>answers := [Some ''b'', Some ''Delete'']\<rparr>)))
          = files (snd (confirmAndDelete bEntry (listingHost\<lparr>answers := [Some ''Delete'']\<rparr>)))"
    by code_simp
  show ?thesis using r fs after command by simp
qed

subsection \<open>Saving: the name prompt\<close>

lemma ask_fields [simp]:
  "files (snd (ask m i h)) = files h"
  "tabGroups (snd (ask m i h)) = tabGroups h"
  "activeTabGroup (snd (ask m i h)) = activeTabGroup h"
  "textDocuments (snd (ask m i h)) = textDocuments h"
  "lastKnownCursorPositions (snd (ask m i h)) = lastKnownCursorPositions h"
  "now (snd (ask m i h)) = now h"
  by (simp_all add: ask_def emit_def split: list.splits)

lemma createSessionSnapshot_cong:
  assumes "tabGroups h' = tabGroups h" and "activeTabGroup h' = activeTabGroup h"
    and "lastKnownCursorPositions h' = lastKnownCursorPositions h"
  shows "createSessionSnapshot h' = createSessionSnapshot h"
  using assms by (simp add: createSessionSnapshot_def collectTextTabs_def)

lemma createSessionSnapshot_ask [simp]:
  "createSessionSnapshot (snd (ask m i h)) = createSessionSnapshot h"
  by (rule createSessionSnapshot_cong) simp_all

lemma timestampName_ask [simp]: "timestampName (snd (ask m i h)) = timestampName h"
  by (simp add: timestampName_def)

lemma nameOrTimestamp_dismissed:
  "a = None \<or> a = Some [] \<Longrightarrow> nameOrTimestamp a h = timestampName h"
  by (auto simp: nameOrTimestamp_def)

lemma writeFile_written:
  "writeFile p c h = (Inr (), h') \<Longrightarrow>
     h' = h\<lparr>files := AList.update p (File c) (files h)\<rparr> \<and> map_of (files h') p = Some (File c)"
  by (auto simp: writeFile_def update_conv' split: option.splits node.splits if_splits)

lemma storeSnapshot_written:
  assumes "resolveSessionDirectory
             \<lparr>promptUser = Some True, showWarning = Some True, ensureExists = Some True\<rparr> h
           = (Inr (Some folder), h2)"
    and "writeFile (pathJoin folder (nm @ ''.json'')) (stringify snapshot) h2 = (Inr (), h3)"
  shows "storeSnapshot nm snapshot h =
           (Inr True,
            refresh (showInformationMessage
                       (''Session '' @ quoted nm @ '' saved with ''
                          @ showNat (length (tabs snapshot)) @ '' tabs.'') h3))"
  using assms by (simp add: storeSnapshot_def)

text \<open>
  C2, as the code has it. A dismissed name prompt (and an empty name) does not cancel the
  save: the session is named \<^verbatim>\<open>session-\<close> followed by the current time, and the handler
  goes on. With at least one eligible tab, a resolved directory and a successful write, the
  session file of that name is written and the user is told so; this holds for
  save-session and for the save branch of restore-named-session alike.
\<close>

theorem dismissed_name_saves_under_timestamp:
  "(fst (ask ''Enter a name for this session'' [] h) \<in> {None, Some []} \<longrightarrow>
    tabs (createSessionSnapshot h) \<noteq> [] \<longrightarrow>
    resolveSessionDirectory
        \<lparr>promptUser = Some True, showWarning = Some True, ensureExists = Some True\<rparr>
        (snd (ask ''Enter a name for this session'' [] h)) = (Inr (Some folder), h2) \<longrightarrow>
    writeFile (pathJoin folder (timestampName h @ ''.json''))
        (stringify (createSessionSnapshot h)) h2 = (Inr (), h3) \<longrightarrow>
      saveSession h =
        (Inr (),
         refresh (showInformationMessage
                    (''Session '' @ quoted (timestampName h) @ '' saved with ''
                       @ showNat (length (tabs (createSessionSnapshot h))) @ '' tabs.'') h3))
      \<and> map_of (files (snd (saveSession h))) (pathJoin folder (timestampName h @ ''.json''))
          = Some (File (stringify (createSessionSnapshot h))))
   \<and> (confirmUnsaved h = (True, hc) \<longrightarrow>
      fst (ask ''Enter a name to save your current session'' [] hc) \<in> {None, Some []} \<longrightarrow>
      tabs (createSessionSnapshot hc) \<noteq> [] \<longrightarrow>
      resolveSessionDirectory
          \<lparr>promptUser = Some True, showWarning = Some True, ensureExists = Some True\<rparr>
          (snd (ask ''Enter a name to save your current session'' [] hc))
        = (Inr (Some folder), h2) \<longrightarrow>
      writeFile (pathJoin folder (timestampName hc @ ''.json''))
          (stringify (createSessionSnapshot hc)) h2 = (Inr (), h3) \<longrightarrow>
        saveBeforeSwitch h =
          (Inr True,
           refresh (showInformationMessage
                      (''Session '' @ quoted (timestampName hc) @ '' saved with ''
                         @ showNat (length (tabs (createSessionSnapshot hc))) @ '' tabs.'') h3))
        \<and> map_of (files (snd (saveBeforeSwitch h))) (pathJoin folder (timestampName hc @ ''.json''))
            = Some (File (stringify (createSessionSnapshot hc))))"
proof (intro conjI impI)
  let ?P = "''Enter a name for this session''"
  assume d: "fst (ask ?P [] h) \<in> {None, Some []}"
    and e: "tabs (createSessionSnapshot h) \<noteq> []"
    and r: "resolveSessionDirectory
        \<lparr>promptUser = Some True, showWarning = Some True, ensureExists = Some True\<rparr>
        (snd (ask ?P [] h)) = (Inr (Some folder), h2)"
    and w: "writeFile (pathJoin folder (timestampName h @ ''.json''))
        (stringify (createSessionSnapshot h)) h2 = (Inr (), h3)"
  have n: "nameOrTimestamp (fst (ask ?P [] h)) (snd (ask ?P [] h)) = timestampName h"
    using d nameOrTimestamp_dismissed [of "fst (ask ?P [] h)" "snd (ask ?P [] h)"] by auto
  show s: "saveSession h =
        (Inr (),
         refresh (showInformationMessage
                    (''Session '' @ quoted (timestampName h) @ '' saved with ''
                       @ showNat (length (tabs (createSessionSnapshot h))) @ '' tabs.'') h3))"
    using e n storeSnapshot_written [OF r w]
    by (simp add: saveSession_def split_beta Let_def)
  show "map_of (files (snd (saveSession h))) (pathJoin folder (timestampName h @ ''.json''))
          = Some (File (stringify (createSessionSnapshot h)))"
    unfolding s using writeFile_written [OF w, THEN conjunct2]
    by (simp add: refresh_def showInformationMessage_def)
next
  let ?P = "''Enter a name to save your current session''"
  assume c: "confirmUnsaved h = (True, hc)"
    and d: "fst (ask ?P [] hc) \<in> {None, Some []}"
    and e: "tabs (createSessionSnapshot hc) \<noteq> []"
    and r: "resolveSessionDirectory
        \<lparr>promptUser = Some True, showWarning = Some True, ensureExists = Some True\<rparr>
        (snd (ask ?P [] hc)) = (Inr (Some folder), h2)"
    and w: "writeFile (pathJoin folder (timestampName hc @ ''.json''))
        (stringify (createSessionSnapshot hc)) h2 = (Inr (), h3)"
  have n: "nameOrTimestamp (fst (ask ?P [] hc)) (snd (ask ?P [] hc)) = timestampName hc"
    using d nameOrTimestamp_dismissed [of "fst (ask ?P [] hc)" "snd (ask ?P [] hc)"] by auto
  show s: "saveBeforeSwitch h =
          (Inr True,
           refresh (showInformationMessage
                      (''Session '' @ quoted (timestampName hc) @ '' saved with ''
                         @ showNat (length (tabs (createSessionSnapshot hc))) @ '' tabs.'') h3))"
    using c e n storeSnapshot_written [OF r w]
    by (simp add: saveBeforeSwitch_def split_beta Let_def)
  show "map_of (files (snd (saveBeforeSwitch h))) (pathJoin folder (timestampName hc @ ''.json''))
            = Some (File (stringify (createSessionSnapshot hc)))"
    unfolding s using writeFile_written [OF w, THEN conjunct2]
    by (simp add: refresh_def showInformationMessage_def)
qed

theorem dismissed_name_saves_under_timestamp_witness:
  "map_of (files (snd (saveSession projectHost)))
      ''/w/.vscode/sessions/session-2025-11-10T08-00-00-000Z.json''
     = Some (File (stringify (createSessionSnapshot projectHost)))"
proof -
  let ?P = "''Enter a name for this session''"
  let ?F = "''/w/.vscode/sessions''"
  let ?H1 = "snd (ask ?P [] projectHost)"
  let ?H2 = "snd (resolveSessionDirectory saveOptions ?H1)"
  let ?W = "writeFile (pathJoin ?F (timestampName projectHost @ ''.json''))
              (stringify (createSessionSnapshot projectHost)) ?H2"
  have d: "fst (ask ?P [] projectHost) \<in> {None, Some []}"
    by (simp add: ask_def projectHost_def idleHost_def)
  have e: "tabs (createSessionSnapshot projectHost) \<noteq> []"
    using collectTextTabs_projectHost [of "[]"]
    by (simp add: createSessionSnapshot_def projectHost_def idleHost_def)
  have "fst (resolveSessionDirectory saveOptions ?H1) = Inr (Some ?F)"
    by code_simp
  then have r: "resolveSessionDirectory
        \<lparr>promptUser = Some True, showWarning = Some True, ensureExists = Some True\<rparr> ?H1
      = (Inr (Some ?F), ?H2)"
    by (simp add: prod_eq_iff saveOptions_def)
  have "fst ?W = Inr ()"
    by code_simp
  then have w: "?W = (Inr (), snd ?W)"
    by (simp add: prod_eq_iff)
  have n: "pathJoin ?F (timestampName projectHost @ ''.json'')
             = ''/w/.vscode/sessions/session-2025-11-10T08-00-00-000Z.json''"
    by (simp add: pathJoin_def timestampName_def projectHost_def idleHost_def)
  from dismissed_name_saves_under_timestamp
         [where h = projectHost and folder = ?F and ?h2.0 = ?H2 and ?h3.0 = "snd ?W",
          THEN conjunct1, rule_format, OF d e r w]
  show ?thesis unfolding n by (rule conjunct2)
qed

theorem dismissed_name_counterexample:
  "fst (ask ''Enter a name for this session'' [] (projectHost\<lparr>answers := [None]\<rparr>)) = None
   \<and> map_of (files projectHost) ''/w/.vscode/sessions/session-2025-11-10T08-00-00-000Z.json'' = None
   \<and> fst (saveSession (projectHost\<lparr>answers := [None]\<rparr>)) = Inr ()
   \<and> map_of (files (snd (saveSession (projectHost\<lparr>answers := [None]\<rparr>))))
        ''/w/.vscode/sessions/session-2025-11-10T08-00-00-000Z.json''
      = Some (File (sessionJson
          [\<lparr>uri = ''file:///w/x.ts'', groupIndex = 0, tabIndex = 0, viewColumn = Some 1,
            isGroupActive = False, isGlobalActive = False, cursor = None\<rparr>,
           \<lparr>uri = ''file:///w/y.ts'', groupIndex = 0, tabIndex = 1, viewColumn = Some 1,
            isGroupActive = True, isGlobalActive = True, cursor = None\<rparr>]))
   \<and> fst (restoreNamedSession asciiFold (ArgRecord workEntry)
             (switchingHost\<lparr>answers := [None]\<rparr>)) = Inr ()
   \<and> map_of (files (snd (restoreNamedSession asciiFold (ArgRecord workEntry)
                            (switchingHost\<lparr>answers := [None]\<rparr>))))
        ''/w/.vscode/sessions/session-2025-11-10T08-00-00-000Z.json''
      = Some (File (sessionJson
          [\<lparr>uri = ''file:///w/x.ts'', groupIndex = 0, tabIndex = 0, viewColumn = Some 1,
            isGroupActive = False, isGlobalActive = False, cursor = None\<rparr>,
           \<lparr>uri = ''file:///w/y.ts'', groupIndex = 0, tabIndex = 1, viewColumn = Some 1,
            isGroupActive = True, isGlobalActive = True, cursor = None\<rparr>]))"
  by code_simp

subsection \<open>Saving: nothing to save\<close>

lemma saveAll_fields [simp]:
  "tabGroups (saveAll h) = tabGroups h"
  "activeTabGroup (saveAll h) = activeTabGroup h"
  "lastKnownCursorPositions (saveAll h) = lastKnownCursorPositions h"
  by (simp_all add: saveAll_def emit_def)

lemma confirmUnsaved_snapshot:
  "confirmUnsaved h = (b, hc) \<Longrightarrow> createSessionSnapshot hc = createSessionSnapshot h"
  by (rule createSessionSnapshot_cong)
     (auto simp: confirmUnsaved_def Let_def split_beta split: if_splits)





lemma emit_textDocuments [simp]: "textDocuments (emit e h) = textDocuments h"
  by (simp add: emit_def)

lemma showWarningMessage_textDocuments [simp]:
  "textDocuments (showWarningMessage m h) = textDocuments h"
  by (simp add: showWarningMessage_def)

lemma updateConfigValue_frame [simp]:
  "files (updateConfigValue k v h) = files h"
  "textDocuments (updateConfigValue k v h) = textDocuments h"
  by (simp_all add: updateConfigValue_def emit_def)













end
